theory Spec2Isabelle
  imports Complex_Main "HOL-Library.Log_Nat"
begin

section \<open>Numbers\<close>

text \<open>
  The source computes with JavaScript numbers, which are IEEE doubles. Chunk coordinates,
  seeds, generator states, entity positions and sizes are integer valued there and are
  integers here; the random outputs, half sizes and distances are reals, and a position of a
  player is a pair of finite numbers (NaN and the infinities are not modelled).

  On doubles, sums, differences, products and remainders of integers are exact as long as
  the results stay within \<open>2^53\<close> in absolute value, and halves of integers within
  \<open>2^52\<close>; beyond, a result is rounded, and a counter that is incremented stops
  advancing. The generator's states (below 233280 in absolute value) and their products
  never leave that range. Seeds, chunk origins and entity positions leave it for chunk
  coordinates that are large enough. The arithmetic of the generator on integers is exact
  here throughout. It is the arithmetic of the source inside that range, and only there: the
  collision invariant and the placement of flowers are stated for coordinates inside it
  (\<open>exactRange\<close> below).

  The counters of the two loops of \<open>getChunksForPosition\<close> leave the range for positions
  that are large enough. They are rounded here as the source rounds them (\<open>round53\<close>), so
  a counter that no longer advances keeps its loop from returning. What the visibility delta
  returns is stated for positions at which the loops return (\<open>safePosition\<close> below).

  The quotient \<open>state / 233280\<close>, its products, the sums that make a colour and the
  product \<open>seed * 0.1\<close> are not integers: they are rounded to the nearest double, to the even
  one of two that are equally near (\<open>toDouble\<close>). Inside the range each of them is 0 or
  lies between \<open>2^-18\<close> and \<open>2^37\<close> in absolute value, so no exponent is out of the range
  of a double, and rounding keeps 53 significant bits.

  Square roots, sines and cosines are the real functions. Inside the range this leaves the
  comparisons of a distance with a bound as the source decides them: the squares under the
  root are exact doubles, a bound is a half integer of at most 130, and a root strictly
  below such a bound stays below it when rounded. The three counts are floors of an
  expression in a sine or cosine, which is taken here of the real sine or cosine and not
  rounded.

  The remainder operator of the source truncates towards zero: its result has the sign of
  the dividend.
\<close>

definition jsRem :: "int \<Rightarrow> int \<Rightarrow> int" where
  "jsRem a m = sgn a * (\<bar>a\<bar> mod \<bar>m\<bar>)"

text \<open>
  The integer nearest to a real, the even one of two that are equally near; and the double
  nearest to a real \<open>x\<close> that is not 0: with \<open>2^L \<le> \<bar>x\<bar> < 2^(L+1)\<close>, the multiple
  of \<open>2^(L-52)\<close> nearest to \<open>x\<close>, the one with an even multiplier of two that are
  equally near. This is the rounding of every operation of the source on doubles, as long as
  the exponent \<open>L\<close> is one of a double (from -1022 to 1023).
\<close>

definition roundEven :: "real \<Rightarrow> int" where
  "roundEven x =
     (let n = \<lfloor>x\<rfloor>; d = x - real_of_int n
      in if d < 1 / 2 then n else if 1 / 2 < d then n + 1 else if even n then n else n + 1)"

definition toDouble :: "real \<Rightarrow> real" where
  "toDouble x =
     (if x = 0 then 0
      else (let e = \<lfloor>log 2 \<bar>x\<bar>\<rfloor> - 52
            in real_of_int (roundEven (x / 2 powr real_of_int e)) * 2 powr real_of_int e))"

text \<open>
  The same rounding on integers: \<open>roundEvenDiv\<close> is the integer nearest to a quotient of
  integers, and \<open>round53 n\<close> the integer of 53 significant bits nearest to \<open>n\<close>, which
  is the double nearest to \<open>n\<close> (the even one of two that are equally near, in both).
\<close>

definition roundEvenDiv :: "int \<Rightarrow> int \<Rightarrow> int" where
  "roundEvenDiv a b =
     (let q = a div b; r = a mod b
      in if 2 * r < b then q else if b < 2 * r then q + 1 else if even q then q else q + 1)"

definition round53 :: "int \<Rightarrow> int" where
  "round53 n =
     (let b = bitlen \<bar>n\<bar>
      in if b \<le> 53 then n else roundEvenDiv n (2 ^ nat (b - 53)) * 2 ^ nat (b - 53))"

section \<open>Entities and chunks (types/Player.ts)\<close>

text \<open>
  A colour is a string in the source. Tree and bush colours are template strings over three
  computed numbers, flower colours are entries of a fixed palette; \<open>NoColor\<close> is the
  \<open>undefined\<close> that an out-of-range palette index reads.
\<close>

datatype Color = Hsl real real real | Hex string | NoColor

record Tree =
  tree_id :: int
  tree_x :: int
  tree_y :: int
  tree_size :: int
  tree_color :: Color
  tree_variant :: int

text \<open>The interface \<open>Bush\<close> has the fields of \<open>Tree\<close>, one for one.\<close>

type_synonym Bush = Tree

record Flower =
  flower_id :: int
  flower_x :: int
  flower_y :: int
  flower_color :: Color

text \<open>
  The coordinates of a chunk are the numbers that \<open>parseInt\<close> read from its key;
  \<open>None\<close> is NaN.
\<close>

record WorldChunk =
  chunk_x :: "int option"
  chunk_y :: "int option"
  trees :: "Tree list"
  bushes :: "Bush list"
  flowers :: "Flower list"
  isLoaded :: bool

text \<open>The argument type \<open>{ x: number, y: number, size?: number }\<close> of the collision checks.\<close>

record Element =
  el_x :: int
  el_y :: int
  el_size :: "int option"

definition asElement :: "Tree \<Rightarrow> Element" where
  "asElement t = \<lparr>el_x = tree_x t, el_y = tree_y t, el_size = Some (tree_size t)\<rparr>"

section \<open>ChunkGenerator (game/ChunkGenerator.ts)\<close>

record ChunkGenerator =
  gen_worldWidth :: int
  gen_worldHeight :: int
  gen_chunkSize :: int
  nextTreeId :: int
  nextBushId :: int
  nextFlowerId :: int

definition newChunkGenerator :: "int \<Rightarrow> int \<Rightarrow> int \<Rightarrow> ChunkGenerator" where
  "newChunkGenerator w h cs =
     \<lparr>gen_worldWidth = w, gen_worldHeight = h, gen_chunkSize = cs,
      nextTreeId = 1000000, nextBushId = 2000000, nextFlowerId = 3000000\<rparr>"

subsection \<open>createSeededRandom\<close>

text \<open>
  The closure returned by \<open>createSeededRandom\<close> owns one variable, \<open>state\<close>. Here
  the variable is passed explicitly: \<open>createSeededRandom\<close> gives its first value and
  \<open>random\<close> is one call of the closure, returning the output and the new state.
\<close>

definition createSeededRandom :: "int \<Rightarrow> int" where
  "createSeededRandom seed = seed"

definition random :: "int \<Rightarrow> real \<times> int" where
  "random state =
     (let state' = jsRem (state * 9301 + 49297) 233280
      in (toDouble (real_of_int state' / 233280), state'))"

text \<open>The state after \<open>k\<close> calls, and the output of call number \<open>k\<close> (counted from 0).\<close>

fun stateAfter :: "nat \<Rightarrow> int \<Rightarrow> int" where
  "stateAfter 0 s = s"
| "stateAfter (Suc k) s = snd (random (stateAfter k s))"

definition nthRandom :: "int \<Rightarrow> nat \<Rightarrow> real" where
  "nthRandom seed k = fst (random (stateAfter k (createSeededRandom seed)))"

subsection \<open>checkCollisionWithExistingElements\<close>

text \<open>\<open>element.size || 10\<close>: a missing size and the size 0 both give 10.\<close>

definition sizeOr10 :: "Element \<Rightarrow> int" where
  "sizeOr10 e = (case el_size e of None \<Rightarrow> 10 | Some s \<Rightarrow> if s = 0 then 10 else s)"

definition buffer :: real where
  "buffer = 10"

fun checkCollisionWithExistingElements :: "int \<Rightarrow> int \<Rightarrow> int \<Rightarrow> Element list \<Rightarrow> bool" where
  "checkCollisionWithExistingElements x y sz [] = False"
| "checkCollisionWithExistingElements x y sz (element # rest) =
     (let elementSize = sizeOr10 element;
          distance = sqrt (
            (real_of_int x + real_of_int sz / 2
               - (real_of_int (el_x element) + real_of_int elementSize / 2))\<^sup>2 +
            (real_of_int y + real_of_int sz / 2
               - (real_of_int (el_y element) + real_of_int elementSize / 2))\<^sup>2)
      in if distance < real_of_int sz / 2 + real_of_int elementSize / 2 + buffer
         then True
         else checkCollisionWithExistingElements x y sz rest)"

subsection \<open>The placement loop of generateTrees and generateBushes\<close>

text \<open>
  Both functions run the same \<open>while (!validPosition && attempts < 50)\<close> loop; they
  differ in the list the candidate is checked against. The loop's variables are
  \<open>attempts\<close>, \<open>validPosition\<close>, \<open>x\<close>, \<open>y\<close> and the state of the random closure.
\<close>

function placementLoop ::
  "int \<Rightarrow> int \<Rightarrow> int \<Rightarrow> int \<Rightarrow> Element list \<Rightarrow> nat \<Rightarrow> bool \<Rightarrow> int \<Rightarrow> int \<Rightarrow> int
     \<Rightarrow> bool \<times> int \<times> int \<times> int" where
  "placementLoop cs chunkX chunkY sz existing attempts validPosition x y rng =
     (if \<not> validPosition \<and> attempts < 50 then
        (let r1 = random rng;
             x' = chunkX * cs + \<lfloor>toDouble (fst r1 * real_of_int (cs - sz))\<rfloor>;
             r2 = random (snd r1);
             y' = chunkY * cs + \<lfloor>toDouble (fst r2 * real_of_int (cs - sz))\<rfloor>
         in placementLoop cs chunkX chunkY sz existing (attempts + 1)
              (\<not> checkCollisionWithExistingElements x' y' sz existing) x' y' (snd r2))
      else (validPosition, x, y, rng))"
  by pat_completeness auto
termination
  by (relation "measure (\<lambda>(cs, chunkX, chunkY, sz, existing, attempts, rest). 50 - attempts)")
     auto

declare placementLoop.simps [simp del]

subsection \<open>generateTrees\<close>

definition treeCount :: "int \<Rightarrow> nat" where
  "treeCount seed = nat (5 + \<lfloor>(sin (real_of_int seed) + 1) * 5\<rfloor>)"

text \<open>
  One pass through the body of the \<open>for\<close> loop. The loop's state is the state of the
  random closure, the list \<open>trees\<close> and the generator, whose counter \<open>nextTreeId\<close> the
  body advances.
\<close>

definition treeStep ::
  "int \<Rightarrow> int \<Rightarrow> int \<times> Tree list \<times> ChunkGenerator \<Rightarrow> int \<times> Tree list \<times> ChunkGenerator" where
  "treeStep chunkX chunkY st =
     (case st of (rng, ts, g) \<Rightarrow>
        (let r1 = random rng;
             sz = 80 + \<lfloor>toDouble (fst r1 * 40)\<rfloor>;
             r2 = random (snd r1);
             variant = \<lfloor>toDouble (fst r2 * 3)\<rfloor>;
             placed = placementLoop (gen_chunkSize g) chunkX chunkY sz (map asElement ts)
                        0 False 0 0 (snd r2)
         in case placed of (validPosition, x, y, rng') \<Rightarrow>
              if validPosition then
                (let c1 = random rng'; c2 = random (snd c1); c3 = random (snd c2)
                 in (snd c3,
                     ts @ [\<lparr>tree_id = nextTreeId g, tree_x = x, tree_y = y, tree_size = sz,
                            tree_color =
                              Hsl (toDouble (110 + toDouble (fst c1 * 30)))
                                  (toDouble (70 + toDouble (fst c2 * 10)))
                                  (toDouble (35 + toDouble (fst c3 * 15))),
                            tree_variant = variant\<rparr>],
                     g\<lparr>nextTreeId := nextTreeId g + 1\<rparr>))
              else (rng', ts, g)))"

fun treesLoop ::
  "int \<Rightarrow> int \<Rightarrow> nat \<Rightarrow> int \<times> Tree list \<times> ChunkGenerator \<Rightarrow> int \<times> Tree list \<times> ChunkGenerator" where
  "treesLoop chunkX chunkY 0 st = st"
| "treesLoop chunkX chunkY (Suc n) st = treesLoop chunkX chunkY n (treeStep chunkX chunkY st)"

definition generateTrees :: "ChunkGenerator \<Rightarrow> int \<Rightarrow> int \<Rightarrow> int \<Rightarrow> Tree list \<times> ChunkGenerator" where
  "generateTrees g chunkX chunkY seed =
     (case treesLoop chunkX chunkY (treeCount seed) (createSeededRandom seed, [], g) of
        (rng, ts, g') \<Rightarrow> (ts, g'))"

subsection \<open>generateBushes\<close>

definition bushCount :: "int \<Rightarrow> nat" where
  "bushCount seed = nat (8 + \<lfloor>(cos (real_of_int seed) + 1) * 7\<rfloor>)"

definition bushStep ::
  "int \<Rightarrow> int \<Rightarrow> Element list \<Rightarrow> int \<times> Bush list \<times> ChunkGenerator
     \<Rightarrow> int \<times> Bush list \<times> ChunkGenerator" where
  "bushStep chunkX chunkY existingElements st =
     (case st of (rng, bs, g) \<Rightarrow>
        (let r1 = random rng;
             sz = 40 + \<lfloor>toDouble (fst r1 * 20)\<rfloor>;
             r2 = random (snd r1);
             variant = \<lfloor>toDouble (fst r2 * 3)\<rfloor>;
             placed = placementLoop (gen_chunkSize g) chunkX chunkY sz
                        (existingElements @ map asElement bs) 0 False 0 0 (snd r2)
         in case placed of (validPosition, x, y, rng') \<Rightarrow>
              if validPosition then
                (let c1 = random rng'; c2 = random (snd c1); c3 = random (snd c2)
                 in (snd c3,
                     bs @ [\<lparr>tree_id = nextBushId g, tree_x = x, tree_y = y, tree_size = sz,
                            tree_color =
                              Hsl (toDouble (100 + toDouble (fst c1 * 50)))
                                  (toDouble (65 + toDouble (fst c2 * 15)))
                                  (toDouble (30 + toDouble (fst c3 * 15))),
                            tree_variant = variant\<rparr>],
                     g\<lparr>nextBushId := nextBushId g + 1\<rparr>))
              else (rng', bs, g)))"

fun bushesLoop ::
  "int \<Rightarrow> int \<Rightarrow> Element list \<Rightarrow> nat \<Rightarrow> int \<times> Bush list \<times> ChunkGenerator
     \<Rightarrow> int \<times> Bush list \<times> ChunkGenerator" where
  "bushesLoop chunkX chunkY existingElements 0 st = st"
| "bushesLoop chunkX chunkY existingElements (Suc n) st =
     bushesLoop chunkX chunkY existingElements n (bushStep chunkX chunkY existingElements st)"

definition generateBushes ::
  "ChunkGenerator \<Rightarrow> int \<Rightarrow> int \<Rightarrow> int \<Rightarrow> Element list \<Rightarrow> Bush list \<times> ChunkGenerator" where
  "generateBushes g chunkX chunkY seed existingElements =
     (case bushesLoop chunkX chunkY existingElements (bushCount seed)
             (createSeededRandom (seed + 1), [], g) of
        (rng, bs, g') \<Rightarrow> (bs, g'))"

subsection \<open>generateFlowers\<close>

definition flowerCount :: "int \<Rightarrow> nat" where
  "flowerCount seed =
     nat (15 + \<lfloor>(sin (toDouble (real_of_int seed * toDouble (1 / 10))) + 1) * 10\<rfloor>)"

definition flowerColors :: "string list" where
  "flowerColors =
     [''#FF5733'', ''#DAF7A6'', ''#FFC300'', ''#C70039'', ''#900C3F'', ''#581845'',
      ''#FFFFFF'', ''#FFC0CB'', ''#3D85C6'']"

text \<open>Reading the palette: an index outside the array reads \<open>undefined\<close>.\<close>

definition paletteAt :: "int \<Rightarrow> Color" where
  "paletteAt i =
     (if 0 \<le> i \<and> i < int (length flowerColors) then Hex (flowerColors ! nat i) else NoColor)"

text \<open>
  The inner \<open>for\<close> loop over \<open>existingElements\<close>, with its \<open>break\<close>: the value is
  \<open>validPosition\<close> when the loop is left.
\<close>

fun flowerPositionValid :: "int \<Rightarrow> int \<Rightarrow> Element list \<Rightarrow> bool" where
  "flowerPositionValid x y [] = True"
| "flowerPositionValid x y (element # rest) =
     (let elementSize = sizeOr10 element;
          distance = sqrt (
            (real_of_int x - (real_of_int (el_x element) + real_of_int elementSize / 2))\<^sup>2 +
            (real_of_int y - (real_of_int (el_y element) + real_of_int elementSize / 2))\<^sup>2)
      in if distance < real_of_int elementSize / 2
         then False
         else flowerPositionValid x y rest)"

definition flowerStep ::
  "int \<Rightarrow> int \<Rightarrow> Element list \<Rightarrow> int \<times> Flower list \<times> ChunkGenerator
     \<Rightarrow> int \<times> Flower list \<times> ChunkGenerator" where
  "flowerStep chunkX chunkY existingElements st =
     (case st of (rng, fs, g) \<Rightarrow>
        (let r1 = random rng;
             x = chunkX * gen_chunkSize g + \<lfloor>toDouble (fst r1 * real_of_int (gen_chunkSize g))\<rfloor>;
             r2 = random (snd r1);
             y = chunkY * gen_chunkSize g + \<lfloor>toDouble (fst r2 * real_of_int (gen_chunkSize g))\<rfloor>;
             r3 = random (snd r2);
             color = paletteAt \<lfloor>toDouble (fst r3 * real (length flowerColors))\<rfloor>
         in if flowerPositionValid x y existingElements then
              (snd r3,
               fs @ [\<lparr>flower_id = nextFlowerId g, flower_x = x, flower_y = y,
                      flower_color = color\<rparr>],
               g\<lparr>nextFlowerId := nextFlowerId g + 1\<rparr>)
            else (snd r3, fs, g)))"

fun flowersLoop ::
  "int \<Rightarrow> int \<Rightarrow> Element list \<Rightarrow> nat \<Rightarrow> int \<times> Flower list \<times> ChunkGenerator
     \<Rightarrow> int \<times> Flower list \<times> ChunkGenerator" where
  "flowersLoop chunkX chunkY existingElements 0 st = st"
| "flowersLoop chunkX chunkY existingElements (Suc n) st =
     flowersLoop chunkX chunkY existingElements n (flowerStep chunkX chunkY existingElements st)"

definition generateFlowers ::
  "ChunkGenerator \<Rightarrow> int \<Rightarrow> int \<Rightarrow> int \<Rightarrow> Element list \<Rightarrow> Flower list \<times> ChunkGenerator" where
  "generateFlowers g chunkX chunkY seed existingElements =
     (case flowersLoop chunkX chunkY existingElements (flowerCount seed)
             (createSeededRandom (seed + 2), [], g) of
        (rng, fs, g') \<Rightarrow> (fs, g'))"

subsection \<open>generateChunk\<close>

definition chunkSeed :: "int \<Rightarrow> int \<Rightarrow> int" where
  "chunkSeed chunkX chunkY = chunkX * 10000 + chunkY"

definition generateChunk :: "ChunkGenerator \<Rightarrow> int \<Rightarrow> int \<Rightarrow> WorldChunk \<times> ChunkGenerator" where
  "generateChunk g chunkX chunkY =
     (let seed = chunkSeed chunkX chunkY;
          (ts, g1) = generateTrees g chunkX chunkY seed;
          (bs, g2) = generateBushes g1 chunkX chunkY seed (map asElement ts);
          (fs, g3) = generateFlowers g2 chunkX chunkY seed (map asElement ts @ map asElement bs)
      in (\<lparr>chunk_x = Some chunkX, chunk_y = Some chunkY, trees = ts, bushes = bs,
           flowers = fs, isLoaded = True\<rparr>, g3))"

section \<open>The coordinates at which generation is exact\<close>

text \<open>
  For a chunk size of at most \<open>2^20\<close> and chunk coordinates of at most \<open>2^26\<close>, in
  absolute value, every integer and half integer that \<open>generateChunk\<close> computes on the
  way to a position or to a distance is an exact double: the seed and its two successors
  are at most \<open>2^26 * 10001 + 2\<close>, so the first product of each stream, at most that times
  9301 plus 49297, is below \<open>2^53\<close>, and later states are below 233280; a chunk origin is at
  most \<open>2^46\<close> and an offset at most \<open>2^20 + 120\<close>, so a position, also when moved by
  half a size, is below \<open>2^47\<close>; the difference of two such centres in one chunk is a
  half integer below \<open>2^22\<close>, whose square, and the sum of two such squares, is a
  multiple of a quarter below \<open>2^45\<close>. The world of the source has chunk size 500, and
  the chunks that its enumeration asks for have coordinates from 0 to 9.
\<close>

definition exactRange :: "ChunkGenerator \<Rightarrow> int \<Rightarrow> int \<Rightarrow> bool" where
  "exactRange g chunkX chunkY =
     (\<bar>gen_chunkSize g\<bar> \<le> 2 ^ 20 \<and> \<bar>chunkX\<bar> \<le> 2 ^ 26 \<and> \<bar>chunkY\<bar> \<le> 2 ^ 26)"

text \<open>
  Where the trees and bushes of a chunk lie, whatever is drawn: a size is between 20 and
  119, and a position is away from the chunk origin by at most the chunk size and a size.
\<close>

definition nearOrigin :: "int \<Rightarrow> int \<Rightarrow> int \<Rightarrow> Tree \<Rightarrow> bool" where
  "nearOrigin cs chunkX chunkY t =
     (20 \<le> tree_size t \<and> tree_size t \<le> 119 \<and>
      \<bar>tree_x t - chunkX * cs\<bar> \<le> \<bar>cs\<bar> + 119 \<and> \<bar>tree_y t - chunkY * cs\<bar> \<le> \<bar>cs\<bar> + 119)"

section \<open>What the statements about chunks speak of\<close>

text \<open>
  The content of an entity is everything but its identifier: position, size, colour and
  variant of a tree or bush, position and colour of a flower. Positions are taken relative
  to an origin \<open>(ox, oy)\<close>; the origin (0, 0) gives the positions as they are stored.
\<close>

definition treeContentFrom :: "int \<Rightarrow> int \<Rightarrow> Tree \<Rightarrow> int \<times> int \<times> int \<times> Color \<times> int" where
  "treeContentFrom ox oy t =
     (tree_x t - ox, tree_y t - oy, tree_size t, tree_color t, tree_variant t)"

definition flowerContentFrom :: "int \<Rightarrow> int \<Rightarrow> Flower \<Rightarrow> int \<times> int \<times> Color" where
  "flowerContentFrom ox oy f = (flower_x f - ox, flower_y f - oy, flower_color f)"

definition chunkContentFrom ::
  "int \<Rightarrow> int \<Rightarrow> WorldChunk \<Rightarrow>
     (int \<times> int \<times> int \<times> Color \<times> int) list \<times> (int \<times> int \<times> int \<times> Color \<times> int) list \<times>
     (int \<times> int \<times> Color) list" where
  "chunkContentFrom ox oy ch =
     (map (treeContentFrom ox oy) (trees ch), map (treeContentFrom ox oy) (bushes ch),
      map (flowerContentFrom ox oy) (flowers ch))"

definition chunkContent ::
  "WorldChunk \<Rightarrow>
     (int \<times> int \<times> int \<times> Color \<times> int) list \<times> (int \<times> int \<times> int \<times> Color \<times> int) list \<times>
     (int \<times> int \<times> Color) list" where
  "chunkContent ch = chunkContentFrom 0 0 ch"

text \<open>
  Moving an element, the element that a content stands for, and the part of a loop's state
  that does not depend on identifiers or on where the chunk lies.
\<close>

definition shiftEl :: "int \<Rightarrow> int \<Rightarrow> Element \<Rightarrow> Element" where
  "shiftEl dx dy e = e\<lparr>el_x := el_x e + dx, el_y := el_y e + dy\<rparr>"

definition contentElement :: "int \<times> int \<times> int \<times> Color \<times> int \<Rightarrow> Element" where
  "contentElement c = (case c of (x, y, s, col, v) \<Rightarrow> \<lparr>el_x = x, el_y = y, el_size = Some s\<rparr>)"

definition treeView ::
  "int \<Rightarrow> int \<Rightarrow> int \<times> Tree list \<times> ChunkGenerator
     \<Rightarrow> int \<times> (int \<times> int \<times> int \<times> Color \<times> int) list \<times> int" where
  "treeView cx cy st =
     (case st of (rng, ts, g) \<Rightarrow>
        (rng, map (treeContentFrom (cx * gen_chunkSize g) (cy * gen_chunkSize g)) ts,
         gen_chunkSize g))"

definition flowerView ::
  "int \<Rightarrow> int \<Rightarrow> int \<times> Flower list \<times> ChunkGenerator
     \<Rightarrow> int \<times> (int \<times> int \<times> Color) list \<times> int" where
  "flowerView cx cy st =
     (case st of (rng, fs, g) \<Rightarrow>
        (rng, map (flowerContentFrom (cx * gen_chunkSize g) (cy * gen_chunkSize g)) fs,
         gen_chunkSize g))"

section \<open>Distances between the entities of a chunk\<close>








section \<open>Players (types/Player.ts)\<close>

record Position =
  pos_x :: real
  pos_y :: real

datatype Direction = Up | Down | Left | Right

record Player =
  player_id :: string
  username :: string
  position :: Position
  direction :: Direction
  isMoving :: bool
  lastUpdate :: int

section \<open>GameWorld (game/GameWorld.ts)\<close>

text \<open>
  The three Map fields are partial functions; a Set of keys is a set of strings. The
  fields \<open>worldWidth\<close>, \<open>worldHeight\<close> and \<open>chunkSize\<close> are initialised where they
  are declared and never assigned: they are constants here.
\<close>

record GameWorld =
  world_id :: string
  players :: "string \<rightharpoonup> Player"
  maxPlayers :: int
  chunkGenerator :: ChunkGenerator
  loadedChunks :: "string \<rightharpoonup> WorldChunk"
  playerChunks :: "string \<rightharpoonup> string set"

definition worldWidth :: int where
  "worldWidth = 5000"

definition worldHeight :: int where
  "worldHeight = 5000"

definition chunkSize :: int where
  "chunkSize = 500"

definition newGameWorld :: "string \<Rightarrow> int \<Rightarrow> GameWorld" where
  "newGameWorld wid maxP =
     \<lparr>world_id = wid, players = Map.empty, maxPlayers = maxP,
      chunkGenerator = newChunkGenerator worldWidth worldHeight chunkSize,
      loadedChunks = Map.empty, playerChunks = Map.empty\<rparr>"

subsection \<open>Chunk keys\<close>

text \<open>
  A key is the template string \<open>`${x},${y}`\<close> of two integer valued numbers: their
  decimal digits, with a minus sign when negative.
\<close>

fun digitsOf :: "nat \<Rightarrow> string" where
  "digitsOf n =
     (if n < 10 then [''0123456789'' ! n]
      else digitsOf (n div 10) @ [''0123456789'' ! (n mod 10)])"

declare digitsOf.simps [simp del]

definition numberToString :: "int \<Rightarrow> string" where
  "numberToString i = (if i < 0 then CHR ''-'' # digitsOf (nat (- i)) else digitsOf (nat i))"

definition chunkKeyOf :: "int \<Rightarrow> int \<Rightarrow> string" where
  "chunkKeyOf x y = numberToString x @ '','' @ numberToString y"

text \<open>
  \<open>Math.floor(v / this.chunkSize)\<close>, the index of the chunk that holds the coordinate
  \<open>v\<close>: the floor of the rounded quotient. The quotient of a negative \<open>v\<close> of at
  most \<open>250 * 2^-1074\<close> in absolute value is at least as near to zero as to the nearest
  double below zero, so it is rounded to \<open>-0\<close>; the floor of \<open>-0\<close> is \<open>-0\<close>, which
  counts, compares and is written in a key as 0. Any other quotient below \<open>2^-1022\<close> in
  absolute value is rounded by the source to a multiple of \<open>2^-1074\<close> that is not zero
  when the quotient is negative, so its floor, 0 or -1, is the one taken here.
\<close>

definition underflowBound :: real where
  "underflowBound = 250 / 2 ^ 1074"

definition chunkIndex :: "real \<Rightarrow> int" where
  "chunkIndex v =
     (if - underflowBound \<le> v \<and> v < 0 then 0
      else \<lfloor>toDouble (v / real_of_int chunkSize)\<rfloor>)"

definition getChunkKey :: "real \<Rightarrow> real \<Rightarrow> string" where
  "getChunkKey x y =
     (let chunkX = chunkIndex x;
          chunkY = chunkIndex y
      in chunkKeyOf chunkX chunkY)"

text \<open>\<open>split(',')\<close>: the pieces between the commas; never an empty list.\<close>

fun splitComma :: "string \<Rightarrow> string list" where
  "splitComma [] = [[]]"
| "splitComma (c # cs) =
     (if c = CHR '','' then [] # splitComma cs
      else (case splitComma cs of [] \<Rightarrow> [[c]] | p # ps \<Rightarrow> (c # p) # ps))"

text \<open>
  \<open>parseInt\<close> in base ten: an optional sign, then the longest run of digits; NaN
  (\<open>None\<close>) when no digit stands there. The white space and the hexadecimal prefix that
  \<open>parseInt\<close> also accepts do not occur in a key and are not modelled.
\<close>

definition isDigit :: "char \<Rightarrow> bool" where
  "isDigit c = (c \<in> set ''0123456789'')"

definition digitValue :: "char \<Rightarrow> nat" where
  "digitValue c = of_char c - 48"

fun readDigits :: "string \<Rightarrow> nat \<Rightarrow> nat" where
  "readDigits [] acc = acc"
| "readDigits (c # cs) acc = (if isDigit c then readDigits cs (10 * acc + digitValue c) else acc)"

definition parseDigits :: "string \<Rightarrow> nat option" where
  "parseDigits s =
     (case s of [] \<Rightarrow> None | c # cs \<Rightarrow> if isDigit c then Some (readDigits s 0) else None)"

definition parseInt :: "string \<Rightarrow> int option" where
  "parseInt s =
     (case s of
        [] \<Rightarrow> None
      | c # cs \<Rightarrow>
          if c = CHR ''-'' then map_option (\<lambda>n. - int n) (parseDigits cs)
          else if c = CHR ''+'' then map_option int (parseDigits cs)
          else map_option int (parseDigits s))"

text \<open>
  The destructuring \<open>const [chunkXStr, chunkYStr] = chunkKey.split(',')\<close> followed by the
  two calls of \<open>parseInt\<close>; a missing second piece is \<open>undefined\<close>, which parses to NaN.
\<close>

definition parseChunkKey :: "string \<Rightarrow> int option \<times> int option" where
  "parseChunkKey chunkKey =
     (case splitComma chunkKey of
        [] \<Rightarrow> (None, None)
      | [chunkXStr] \<Rightarrow> (parseInt chunkXStr, None)
      | chunkXStr # chunkYStr # rest \<Rightarrow> (parseInt chunkXStr, parseInt chunkYStr))"

subsection \<open>getChunksForPosition\<close>

text \<open>
  \<open>outsideWorld\<close> is the condition of the \<open>continue\<close>. Its two products with the
  chunk size are rounded by the source; a rounded product is at least 5000 exactly when the
  product is.
\<close>

definition outsideWorld :: "int \<Rightarrow> int \<Rightarrow> bool" where
  "outsideWorld x y =
     (x < 0 \<or> y < 0 \<or> x * chunkSize \<ge> worldWidth \<or> y * chunkSize \<ge> worldHeight)"

text \<open>
  The two nested \<open>for\<close> loops, the inner one over \<open>y\<close> and the outer one over
  \<open>x\<close>. A counter is a double, and \<open>x++\<close> gives the double nearest to \<open>x + 1\<close>:
  that is \<open>x + 1\<close> below \<open>2^53\<close>, and it can be \<open>x\<close> itself from there on. A loop
  whose counter stays where it is does not end; then it has no value here (\<open>None\<close>). The
  start of a loop and its bound are the rounded difference and sum of the centre and the
  distance. The coordinates are collected first and then turned into keys, in the order of
  the loops.
\<close>

partial_function (option) innerLoop ::
  "int \<Rightarrow> int \<Rightarrow> int \<Rightarrow> (int \<times> int) list \<Rightarrow> (int \<times> int) list option" where
  "innerLoop x y bound chunkKeys =
     (if y \<le> bound
      then innerLoop x (round53 (y + 1)) bound
             (if outsideWorld x y then chunkKeys else chunkKeys @ [(x, y)])
      else Some chunkKeys)"

partial_function (option) outerLoop ::
  "int \<Rightarrow> int \<Rightarrow> int \<Rightarrow> int \<Rightarrow> (int \<times> int) list \<Rightarrow> (int \<times> int) list option" where
  "outerLoop x boundX startY boundY chunkKeys =
     (if x \<le> boundX
      then Option.bind (innerLoop x startY boundY chunkKeys)
             (outerLoop (round53 (x + 1)) boundX startY boundY)
      else Some chunkKeys)"

definition chunkCoordsLoop :: "Position \<Rightarrow> int \<Rightarrow> (int \<times> int) list option" where
  "chunkCoordsLoop pos distance =
     (let centerChunkX = chunkIndex (pos_x pos);
          centerChunkY = chunkIndex (pos_y pos)
      in outerLoop (round53 (centerChunkX - distance)) (round53 (centerChunkX + distance))
           (round53 (centerChunkY - distance)) (round53 (centerChunkY + distance)) [])"

text \<open>
  The coordinates that the loops return. Where the loops do not return, neither does the
  method of the world that called them, and no later call is served. The operations of the
  world below are total and take the empty list there: the worlds they reach include every
  world that the source reaches, and what \<open>getNewChunksForPlayer\<close> returns is stated
  for positions at which the loops return.
\<close>

definition chunkCoordsForPosition :: "Position \<Rightarrow> int \<Rightarrow> (int \<times> int) list" where
  "chunkCoordsForPosition pos distance =
     (case chunkCoordsLoop pos distance of None \<Rightarrow> [] | Some chunkKeys \<Rightarrow> chunkKeys)"

definition getChunksForPosition :: "Position \<Rightarrow> int \<Rightarrow> string list" where
  "getChunksForPosition pos distance =
     map (\<lambda>(x, y). chunkKeyOf x y) (chunkCoordsForPosition pos distance)"

text \<open>
  For a position whose coordinates are at most \<open>Number.MAX_SAFE_INTEGER\<close> in absolute
  value, the centre chunk is at most \<open>2^53 / 500\<close>, every value that a counter takes is
  an integer below \<open>2^53\<close>, and \<open>x++\<close> adds one: the loops return, with the
  coordinates of the square around the centre that are inside the world. From positions of
  about \<open>4.5 * 10^18\<close> on a counter can stay where it is when incremented, and the
  loops do not return.
\<close>

definition maxSafeInteger :: int where
  "maxSafeInteger = 2 ^ 53 - 1"

definition safePosition :: "Position \<Rightarrow> bool" where
  "safePosition pos =
     (\<bar>pos_x pos\<bar> \<le> real_of_int maxSafeInteger \<and> \<bar>pos_y pos\<bar> \<le> real_of_int maxSafeInteger)"

subsection \<open>isFull, getPlayerCount\<close>

definition getPlayerCount :: "GameWorld \<Rightarrow> nat" where
  "getPlayerCount w = card (dom (players w))"

definition isFull :: "GameWorld \<Rightarrow> bool" where
  "isFull w = (int (card (dom (players w))) \<ge> maxPlayers w)"

subsection \<open>getOrGenerateChunk\<close>

text \<open>
  When a coordinate parses to NaN the seed is NaN, so are the three counts, no loop of the
  generator runs and no counter moves: the chunk is empty.
\<close>

definition getOrGenerateChunk :: "GameWorld \<Rightarrow> string \<Rightarrow> WorldChunk \<times> GameWorld" where
  "getOrGenerateChunk w chunkKey =
     (case loadedChunks w chunkKey of
        Some chunk \<Rightarrow> (chunk, w)
      | None \<Rightarrow>
          (let (chunk, g') =
                 (case parseChunkKey chunkKey of
                    (Some chunkX, Some chunkY) \<Rightarrow> generateChunk (chunkGenerator w) chunkX chunkY
                  | (px, py) \<Rightarrow>
                      (\<lparr>chunk_x = px, chunk_y = py, trees = [], bushes = [], flowers = [],
                        isLoaded = True\<rparr>, chunkGenerator w))
           in (chunk, w\<lparr>chunkGenerator := g',
                         loadedChunks := (loadedChunks w)(chunkKey \<mapsto> chunk)\<rparr>)))"

text \<open>\<open>keys.map(key => this.getOrGenerateChunk(key))\<close>, from left to right.\<close>

fun getOrGenerateChunks :: "GameWorld \<Rightarrow> string list \<Rightarrow> WorldChunk list \<times> GameWorld" where
  "getOrGenerateChunks w [] = ([], w)"
| "getOrGenerateChunks w (key # keys) =
     (let (chunk, w1) = getOrGenerateChunk w key;
          (chunks, w2) = getOrGenerateChunks w1 keys
      in (chunk # chunks, w2))"

subsection \<open>addPlayer, updatePlayer, removePlayer\<close>

definition addPlayer :: "GameWorld \<Rightarrow> Player \<Rightarrow> GameWorld" where
  "addPlayer w player =
     (if players w (player_id player) \<noteq> None then w
      else
        (let w1 = w\<lparr>players := (players w)(player_id player \<mapsto> player)\<rparr>;
             chunkKeys = getChunksForPosition (position player) 2;
             w2 = w1\<lparr>playerChunks := (playerChunks w1)(player_id player \<mapsto> set chunkKeys)\<rparr>
         in snd (getOrGenerateChunks w2 chunkKeys)))"

definition updatePlayer :: "GameWorld \<Rightarrow> Player \<Rightarrow> GameWorld" where
  "updatePlayer w player =
     (if players w (player_id player) = None then w
      else w\<lparr>players := (players w)(player_id player \<mapsto> player)\<rparr>)"

definition removePlayer :: "GameWorld \<Rightarrow> string \<Rightarrow> GameWorld" where
  "removePlayer w playerId =
     w\<lparr>players := (players w)(playerId := None),
       playerChunks := (playerChunks w)(playerId := None)\<rparr>"

subsection \<open>getChunksNearPosition, getNewChunksForPlayer, getChunkAtPosition\<close>

definition getChunksNearPosition ::
  "GameWorld \<Rightarrow> Position \<Rightarrow> int \<Rightarrow> WorldChunk list \<times> GameWorld" where
  "getChunksNearPosition w pos distance =
     getOrGenerateChunks w (getChunksForPosition pos distance)"

text \<open>\<open>this.playerChunks.get(player.id) || new Set()\<close>: a stored set, also an empty one, is kept.\<close>

definition prevChunkKeysOf :: "GameWorld \<Rightarrow> string \<Rightarrow> string set" where
  "prevChunkKeysOf w playerId = (case playerChunks w playerId of None \<Rightarrow> {} | Some keys \<Rightarrow> keys)"

definition getNewChunksForPlayer :: "GameWorld \<Rightarrow> Player \<Rightarrow> WorldChunk list \<times> GameWorld" where
  "getNewChunksForPlayer w player =
     (let currentChunkKeys = getChunksForPosition (position player) 2;
          prevChunkKeys = prevChunkKeysOf w (player_id player);
          newChunkKeys = filter (\<lambda>key. key \<notin> prevChunkKeys) currentChunkKeys;
          w1 = w\<lparr>playerChunks := (playerChunks w)(player_id player \<mapsto> set currentChunkKeys)\<rparr>
      in getOrGenerateChunks w1 newChunkKeys)"

definition getChunkAtPosition :: "GameWorld \<Rightarrow> Position \<Rightarrow> WorldChunk \<times> GameWorld" where
  "getChunkAtPosition w pos = getOrGenerateChunk w (getChunkKey (pos_x pos) (pos_y pos))"

subsection \<open>The states a world can reach\<close>

text \<open>
  A world is made by its constructor and changed by its public methods only. \<open>isFull\<close>,
  \<open>getPlayers\<close>, \<open>getPlayerCount\<close> and \<open>getSpawnPosition\<close> change nothing.
\<close>

inductive reachable :: "string \<Rightarrow> int \<Rightarrow> GameWorld \<Rightarrow> bool" for wid maxP where
  reach_new: "reachable wid maxP (newGameWorld wid maxP)"
| reach_addPlayer: "reachable wid maxP w \<Longrightarrow> reachable wid maxP (addPlayer w player)"
| reach_updatePlayer: "reachable wid maxP w \<Longrightarrow> reachable wid maxP (updatePlayer w player)"
| reach_removePlayer: "reachable wid maxP w \<Longrightarrow> reachable wid maxP (removePlayer w playerId)"
| reach_getChunksNearPosition:
    "reachable wid maxP w \<Longrightarrow> reachable wid maxP (snd (getChunksNearPosition w pos distance))"
| reach_getNewChunksForPlayer:
    "reachable wid maxP w \<Longrightarrow> reachable wid maxP (snd (getNewChunksForPlayer w player))"
| reach_getChunkAtPosition:
    "reachable wid maxP w \<Longrightarrow> reachable wid maxP (snd (getChunkAtPosition w pos))"

subsection \<open>An invariant of the chunk cache\<close>

text \<open>Every cached chunk carries the coordinates that its key parses to.\<close>

definition cacheKeyed :: "GameWorld \<Rightarrow> bool" where
  "cacheKeyed w =
     (\<forall>k c. loadedChunks w k = Some c \<longrightarrow> (chunk_x c, chunk_y c) = parseChunkKey k)"

section \<open>Chunk (0, 0) of a world\<close>

text \<open>
  The generator that a world constructs, and the first chunk it can generate. The elements
  of its trees and bushes and the positions of its flowers are listed for the evaluation
  further down. \<open>rnd\<close> and \<open>rfloor\<close> name the two uses of the random closure, its next
  state and \<open>Math.floor(random() * k)\<close>, so that they can be computed on integers, with
  \<open>roundEvenDiv\<close> and \<open>round53\<close>; \<open>shiftTo a b\<close> is the number of doublings that
  take \<open>a\<close> to \<open>b\<close> or above.
\<close>

function shiftTo :: "int \<Rightarrow> int \<Rightarrow> nat" where
  "shiftTo a b = (if 0 < a \<and> a < b then Suc (shiftTo (2 * a) b) else 0)"
  by pat_completeness auto
termination
  by (relation "measure (\<lambda>(a, b). nat (b - a))") auto

declare shiftTo.simps [simp del]

definition rnd :: "int \<Rightarrow> int" where
  "rnd s = snd (random s)"

definition rfloor :: "int \<Rightarrow> int \<Rightarrow> int" where
  "rfloor s k = \<lfloor>toDouble (fst (random s) * real_of_int k)\<rfloor>"

definition originGenerator :: ChunkGenerator where
  "originGenerator = newChunkGenerator worldWidth worldHeight chunkSize"





section \<open>Concrete players and worlds\<close>

definition alice :: Player where
  "alice = \<lparr>player_id = ''alice'', username = ''Alice'',
            position = \<lparr>pos_x = 2500, pos_y = 2500\<rparr>,
            direction = Down, isMoving = False, lastUpdate = 0\<rparr>"

definition bob :: Player where
  "bob = \<lparr>player_id = ''bob'', username = ''Bob'',
          position = \<lparr>pos_x = 2450, pos_y = 2520\<rparr>,
          direction = Up, isMoving = False, lastUpdate = 0\<rparr>"

definition ghost :: Player where
  "ghost = \<lparr>player_id = ''ghost'', username = ''Ghost'',
            position = \<lparr>pos_x = 2500, pos_y = 2500\<rparr>,
            direction = Left, isMoving = True, lastUpdate = 0\<rparr>"

text \<open>A world for one player, after Alice has joined.\<close>

definition aliceWorld :: GameWorld where
  "aliceWorld = addPlayer (newGameWorld ''w'' 1) alice"


section \<open>Chunk keys are read back as written\<close>

lemma small_cases: "n < (10::nat) \<Longrightarrow> n \<in> {0, 1, 2, 3, 4, 5, 6, 7, 8, 9}"
  by auto

lemma digitChar_cases:
  "n < 10 \<Longrightarrow>
     isDigit (''0123456789'' ! n) \<and> digitValue (''0123456789'' ! n) = n \<and>
     ''0123456789'' ! n \<noteq> CHR '','' \<and> ''0123456789'' ! n \<noteq> CHR ''-'' \<and>
     ''0123456789'' ! n \<noteq> CHR ''+''"
  by (drule small_cases, elim insertE emptyE; simp add: isDigit_def digitValue_def)

lemma digitsOf_small: "n < 10 \<Longrightarrow> digitsOf n = [''0123456789'' ! n]"
  by (simp add: digitsOf.simps)

lemma readDigits_snoc:
  "\<forall>c \<in> set xs. isDigit c \<Longrightarrow> isDigit d \<Longrightarrow>
     readDigits (xs @ [d]) acc = 10 * readDigits xs acc + digitValue d"
  by (induction xs arbitrary: acc) simp_all

lemma digitsOf_digits: "\<forall>c \<in> set (digitsOf n). isDigit c"
proof (induction n rule: digitsOf.induct)
  case (1 n)
  show ?case
  proof (cases "n < 10")
    case True
    then show ?thesis using digitChar_cases [of n] by (simp add: digitsOf.simps [of n])
  next
    case False
    then show ?thesis
      using 1 digitChar_cases [of "n mod 10"] by (simp add: digitsOf.simps [of n])
  qed
qed

lemma digitsOf_nonempty: "digitsOf n \<noteq> []"
  by (simp add: digitsOf.simps [of n])

lemma readDigits_digitsOf: "readDigits (digitsOf n) 0 = n"
proof (induction n rule: digitsOf.induct)
  case (1 n)
  show ?case
  proof (cases "n < 10")
    case True
    then show ?thesis using digitChar_cases [of n] by (simp add: digitsOf.simps [of n])
  next
    case False
    then have "readDigits (digitsOf n) 0 =
        10 * readDigits (digitsOf (n div 10)) 0 + digitValue (''0123456789'' ! (n mod 10))"
      using digitChar_cases [of "n mod 10"] digitsOf_digits [of "n div 10"]
      by (simp add: digitsOf.simps [of n] readDigits_snoc del: readDigits.simps)
    then show ?thesis using 1 False digitChar_cases [of "n mod 10"] by simp
  qed
qed

lemma parseDigits_digitsOf: "parseDigits (digitsOf n) = Some n"
  using digitsOf_nonempty [of n] digitsOf_digits [of n] readDigits_digitsOf [of n]
  by (cases "digitsOf n") (simp_all add: parseDigits_def)

lemma isDigit_not_sign: "isDigit c \<Longrightarrow> c \<noteq> CHR ''-'' \<and> c \<noteq> CHR ''+'' \<and> c \<noteq> CHR '',''"
  by (auto simp: isDigit_def)

lemma parseInt_numberToString: "parseInt (numberToString i) = Some i"
proof (cases "i < 0")
  case True
  then show ?thesis by (simp add: parseInt_def numberToString_def parseDigits_digitsOf)
next
  case False
  obtain c cs where d: "digitsOf (nat i) = c # cs"
    using digitsOf_nonempty [of "nat i"] by (cases "digitsOf (nat i)") auto
  then have "isDigit c" using digitsOf_digits [of "nat i"] by simp
  then have "c \<noteq> CHR ''-''" "c \<noteq> CHR ''+''" using isDigit_not_sign by auto
  then show ?thesis
    using False parseDigits_digitsOf [of "nat i"]
    by (simp add: parseInt_def numberToString_def d)
qed

lemma splitComma_no_comma: "CHR '','' \<notin> set xs \<Longrightarrow> splitComma xs = [xs]"
  by (induction xs) auto

lemma splitComma_append:
  "CHR '','' \<notin> set xs \<Longrightarrow> splitComma (xs @ CHR '','' # ys) = xs # splitComma ys"
  by (induction xs) auto

lemma numberToString_no_comma: "CHR '','' \<notin> set (numberToString i)"
proof -
  have "CHR '','' \<notin> set (digitsOf n)" for n
    using digitsOf_digits [of n] isDigit_not_sign [of "CHR '',''"] by blast
  then show ?thesis by (simp add: numberToString_def)
qed

lemma parseChunkKey_chunkKeyOf: "parseChunkKey (chunkKeyOf x y) = (Some x, Some y)"
  by (simp add: parseChunkKey_def chunkKeyOf_def splitComma_append splitComma_no_comma
        numberToString_no_comma parseInt_numberToString)

section \<open>Rounding to a double\<close>

lemma roundEven_error: "\<bar>real_of_int (roundEven x) - x\<bar> \<le> 1 / 2"
  unfolding roundEven_def Let_def by (auto simp: abs_le_iff)

lemma roundEven_nonneg: "0 \<le> x \<Longrightarrow> 0 \<le> roundEven x"
  unfolding roundEven_def Let_def by auto

lemma roundEven_of_int [simp]: "roundEven (real_of_int n) = n"
  by (simp add: roundEven_def)

lemma roundEven_minus: "roundEven (- x) = - roundEven x"
proof (cases "x = real_of_int \<lfloor>x\<rfloor>")
  case True
  then obtain n where "x = real_of_int n" ..
  then show ?thesis by (simp flip: of_int_minus)
next
  case False
  then have f: "\<lfloor>- x\<rfloor> = - \<lfloor>x\<rfloor> - 1"
    by (simp add: floor_eq_iff) linarith
  show ?thesis
    unfolding roundEven_def Let_def f using False
    by (auto simp: algebra_simps) 
qed

lemma toDouble_zero [simp]: "toDouble 0 = 0"
  by (simp add: toDouble_def)

lemma toDouble_minus: "toDouble (- x) = - toDouble x"
  by (simp add: toDouble_def Let_def roundEven_minus)

lemma log2_bounds:
  assumes "x \<noteq> 0"
  shows "2 powr real_of_int \<lfloor>log 2 \<bar>x\<bar>\<rfloor> \<le> \<bar>x\<bar>"
    and "\<bar>x\<bar> < 2 powr (real_of_int \<lfloor>log 2 \<bar>x\<bar>\<rfloor> + 1)"
  using floor_log_eq_powr_iff [of "\<bar>x\<bar>" 2 "\<lfloor>log 2 \<bar>x\<bar>\<rfloor>"] assms by simp_all

lemma toDouble_error: "\<bar>toDouble x - x\<bar> \<le> \<bar>x\<bar> / 2 ^ 53"
proof (cases "x = 0")
  case True
  then show ?thesis by simp
next
  case False
  define L where "L = \<lfloor>log 2 \<bar>x\<bar>\<rfloor>"
  define p where "p = 2 powr real_of_int (L - 52)"
  have p: "0 < p" by (simp add: p_def)
  have "p = 2 powr real_of_int L / 2 powr 52"
    by (simp add: p_def powr_diff)
  also have "\<dots> = 2 powr real_of_int L / 2 ^ 52"
    by (simp add: powr_numeral)
  finally have pL: "p = 2 powr real_of_int L / 2 ^ 52" .
  from log2_bounds(1) [OF False] have "2 powr real_of_int L \<le> \<bar>x\<bar>" by (simp add: L_def)
  then have px: "p \<le> \<bar>x\<bar> / 2 ^ 52" by (simp add: pL divide_right_mono)
  have t: "toDouble x = real_of_int (roundEven (x / p)) * p"
    using False by (simp add: toDouble_def Let_def L_def p_def)
  have "toDouble x - x = (real_of_int (roundEven (x / p)) - x / p) * p"
    using p by (simp add: t algebra_simps)
  then have "\<bar>toDouble x - x\<bar> = \<bar>real_of_int (roundEven (x / p)) - x / p\<bar> * p"
    using p by (simp add: abs_mult)
  also have "\<dots> \<le> 1 / 2 * p"
    using roundEven_error [of "x / p"] p by (intro mult_right_mono) simp_all
  also have "\<dots> \<le> 1 / 2 * (\<bar>x\<bar> / 2 ^ 52)"
    using px by simp
  finally show ?thesis by simp
qed

lemma toDouble_nonneg: "0 \<le> x \<Longrightarrow> 0 \<le> toDouble x"
  by (simp add: toDouble_def Let_def roundEven_nonneg)

lemma toDouble_abs_le: "\<bar>toDouble x\<bar> \<le> \<bar>x\<bar> + \<bar>x\<bar> / 2 ^ 53"
proof -
  have "\<bar>toDouble x\<bar> \<le> \<bar>x\<bar> + \<bar>toDouble x - x\<bar>" by linarith
  with toDouble_error [of x] show ?thesis by linarith
qed

text \<open>Scaling by a power of two is exact.\<close>

lemma toDouble_scale: "toDouble (x * 2 powr real_of_int n) = toDouble x * 2 powr real_of_int n"
proof (cases "x = 0")
  case True
  then show ?thesis by simp
next
  case False
  have "log 2 \<bar>x * 2 powr real_of_int n\<bar> = log 2 \<bar>x\<bar> + real_of_int n"
    using False by (simp add: abs_mult log_mult)
  then have l: "\<lfloor>log 2 \<bar>x * 2 powr real_of_int n\<bar>\<rfloor> = \<lfloor>log 2 \<bar>x\<bar>\<rfloor> + n"
    by simp
  have q: "x * 2 powr real_of_int n / 2 powr real_of_int (\<lfloor>log 2 \<bar>x\<bar>\<rfloor> + n - 52) =
      x / 2 powr real_of_int (\<lfloor>log 2 \<bar>x\<bar>\<rfloor> - 52)"
    by (simp add: powr_diff powr_add field_simps)
  have r: "2 powr real_of_int (\<lfloor>log 2 \<bar>x\<bar>\<rfloor> + n - 52) =
      2 powr real_of_int (\<lfloor>log 2 \<bar>x\<bar>\<rfloor> - 52) * 2 powr real_of_int n"
    by (simp add: powr_diff powr_add field_simps)
  show ?thesis
    using False unfolding toDouble_def Let_def l q r by simp
qed

lemma roundEven_quotient:
  assumes "0 < b"
  shows "roundEven (real_of_int a / real_of_int b) = roundEvenDiv a b"
proof -
  have f: "\<lfloor>real_of_int a / real_of_int b\<rfloor> = a div b"
    by (simp add: floor_divide_of_int_eq)
  have "real_of_int a = real_of_int (a div b) * real_of_int b + real_of_int (a mod b)"
    by (metis mult.commute of_int_add of_int_mult mult_div_mod_eq)
  then have d: "real_of_int a / real_of_int b - real_of_int (a div b) =
      real_of_int (a mod b) / real_of_int b"
    using assms by (simp add: field_simps)
  have l: "(real_of_int (a mod b) / real_of_int b < 1 / 2) = (2 * (a mod b) < b)"
    using assms by (simp add: field_simps) (metis of_int_less_iff of_int_mult of_int_numeral mult.commute)
  have g: "(1 / 2 < real_of_int (a mod b) / real_of_int b) = (b < 2 * (a mod b))"
    using assms by (simp add: field_simps) (metis of_int_less_iff of_int_mult of_int_numeral mult.commute)
  show ?thesis
    unfolding roundEven_def roundEvenDiv_def Let_def f d l g by simp
qed

lemma powr_of_nat: "2 powr real_of_int (int n) = 2 ^ n"
  by (simp add: powr_realpow)

lemma powr_neg_nat: "2 powr real_of_int (- int n) = 1 / 2 ^ n"
  by (simp add: powr_minus powr_realpow divide_inverse)

lemma toDouble_of_int: "toDouble (real_of_int n) = real_of_int (round53 n)"
proof (cases "n = 0")
  case True
  then show ?thesis by (simp add: round53_def)
next
  case False
  then have pos: "0 < \<bar>n\<bar>" by simp
  have L: "\<lfloor>log 2 \<bar>real_of_int n\<bar>\<rfloor> = bitlen \<bar>n\<bar> - 1"
    using pos by (simp add: bitlen_alt_def)
  have nz: "real_of_int n \<noteq> 0" using False by simp
  show ?thesis
  proof (cases "bitlen \<bar>n\<bar> \<le> 53")
    case True
    define k where "k = nat (53 - bitlen \<bar>n\<bar>)"
    have e: "bitlen \<bar>n\<bar> - 1 - 52 = - int k" using True by (simp add: k_def)
    have "real_of_int n / (1 / 2 ^ k) = real_of_int (n * 2 ^ k)" by simp
    then have "roundEven (real_of_int n / (1 / 2 ^ k)) = n * 2 ^ k"
      by (simp only: roundEven_of_int)
    then have "toDouble (real_of_int n) = real_of_int (n * 2 ^ k) * (1 / 2 ^ k)"
      using nz unfolding toDouble_def Let_def L e powr_neg_nat by simp
    then show ?thesis using True by (simp add: round53_def)
  next
    case False
    define k where "k = nat (bitlen \<bar>n\<bar> - 53)"
    have e: "bitlen \<bar>n\<bar> - 1 - 52 = int k" using False by (simp add: k_def)
    have "roundEven (real_of_int n / real_of_int (2 ^ k)) = roundEvenDiv n (2 ^ k)"
      by (rule roundEven_quotient) simp
    then have "roundEven (real_of_int n / 2 ^ k) = roundEvenDiv n (2 ^ k)"
      by simp
    then have "toDouble (real_of_int n) = real_of_int (roundEvenDiv n (2 ^ k)) * 2 ^ k"
      using nz unfolding toDouble_def Let_def L e powr_of_nat by simp
    then show ?thesis using False by (simp add: round53_def k_def Let_def)
  qed
qed

lemma round53_small: "\<bar>n\<bar> < 2 ^ 53 \<Longrightarrow> round53 n = n"
  by (simp add: round53_def bitlen_le_iff_power)

section \<open>Properties of the seeded random generator\<close>

lemma jsRem_abs_less: "0 < m \<Longrightarrow> \<bar>jsRem a m\<bar> < m"
  by (simp add: jsRem_def abs_mult abs_sgn_eq)

lemma jsRem_nonneg: "0 \<le> a \<Longrightarrow> 0 \<le> jsRem a m"
  by (cases "m = 0") (simp_all add: jsRem_def sgn_if)

lemma random_state_bounds: "- 233280 < snd (random s) \<and> snd (random s) < 233280"
  using jsRem_abs_less [of 233280 "s * 9301 + 49297"]
  by (simp add: random_def Let_def abs_less_iff)

lemma random_fst: "fst (random s) = toDouble (real_of_int (snd (random s)) / 233280)"
  by (simp add: random_def Let_def)

lemma random_abs: "\<bar>fst (random s)\<bar> \<le> 233279 / 233280 + 233279 / 233280 / 2 ^ 53"
proof -
  let ?q = "real_of_int (snd (random s)) / 233280"
  from random_state_bounds [of s] have "\<bar>snd (random s)\<bar> \<le> 233279" by linarith
  then have "real_of_int \<bar>snd (random s)\<bar> \<le> 233279" by (simp only: of_int_le_iff of_int_numeral)
  then have q: "\<bar>?q\<bar> \<le> 233279 / 233280" by simp
  from toDouble_abs_le [of ?q] have "\<bar>fst (random s)\<bar> \<le> \<bar>?q\<bar> + \<bar>?q\<bar> / 2 ^ 53"
    by (simp only: random_fst)
  with q show ?thesis by simp
qed

lemma random_out_bounds: "- 1 < fst (random s) \<and> fst (random s) < 1"
proof -
  have c: "(233279 / 233280 + 233279 / 233280 / 2 ^ 53 :: real) < 1" by simp
  from random_abs [of s] c have "\<bar>fst (random s)\<bar> < 1" by linarith
  then show ?thesis by (simp add: abs_less_iff)
qed

lemma random_times_abs:
  assumes "k \<noteq> 0"
  shows "\<bar>toDouble (fst (random s) * real_of_int k)\<bar> < real_of_int \<bar>k\<bar>"
proof -
  let ?p = "fst (random s) * real_of_int k"
  have k: "0 < real_of_int \<bar>k\<bar>" using assms by simp
  have "\<bar>?p\<bar> = \<bar>fst (random s)\<bar> * real_of_int \<bar>k\<bar>" by (simp add: abs_mult)
  also have "\<dots> \<le> (233279 / 233280 + 233279 / 233280 / 2 ^ 53) * real_of_int \<bar>k\<bar>"
    using random_abs [of s] k by (intro mult_right_mono) simp_all
  finally have p: "\<bar>?p\<bar> \<le> (233279 / 233280 + 233279 / 233280 / 2 ^ 53) * real_of_int \<bar>k\<bar>" .
  have "\<bar>toDouble ?p\<bar> \<le> \<bar>?p\<bar> + \<bar>?p\<bar> / 2 ^ 53" by (rule toDouble_abs_le)
  also have "\<dots> = \<bar>?p\<bar> * (1 + 1 / 2 ^ 53)" by (simp add: algebra_simps)
  also have "\<dots> \<le> (233279 / 233280 + 233279 / 233280 / 2 ^ 53) * real_of_int \<bar>k\<bar> * (1 + 1 / 2 ^ 53)"
    using p by (intro mult_right_mono) simp_all
  also have "\<dots> = ((233279 / 233280 + 233279 / 233280 / 2 ^ 53) * (1 + 1 / 2 ^ 53)) * real_of_int \<bar>k\<bar>"
    by (simp add: algebra_simps)
  also have "\<dots> < 1 * real_of_int \<bar>k\<bar>"
    using k by (intro mult_strict_right_mono) simp_all
  finally show ?thesis by simp
qed

lemma floor_random_range:
  "- \<bar>k\<bar> \<le> \<lfloor>toDouble (fst (random s) * real_of_int k)\<rfloor> \<and>
   \<lfloor>toDouble (fst (random s) * real_of_int k)\<rfloor> \<le> \<bar>k\<bar> \<and>
   (k \<noteq> 0 \<longrightarrow> \<lfloor>toDouble (fst (random s) * real_of_int k)\<rfloor> < \<bar>k\<bar>)"
proof (cases "k = 0")
  case True
  then show ?thesis by simp
next
  case False
  let ?t = "toDouble (fst (random s) * real_of_int k)"
  from random_times_abs [OF False, of s]
  have "real_of_int (- \<bar>k\<bar>) < ?t" "?t < real_of_int \<bar>k\<bar>" by (simp_all add: abs_less_iff)
  then have "- \<bar>k\<bar> \<le> \<lfloor>?t\<rfloor>" "\<lfloor>?t\<rfloor> < \<bar>k\<bar>"
    by (simp_all only: le_floor_iff floor_less_iff)
  then show ?thesis by simp
qed

lemma random_nonneg: "0 \<le> snd (random s) \<Longrightarrow> 0 \<le> fst (random s)"
  by (simp add: random_fst toDouble_nonneg)

lemma random_state_nonneg: "0 \<le> s \<Longrightarrow> 0 \<le> snd (random s)"
  by (simp add: random_def Let_def jsRem_nonneg)

lemma stateAfter_nonneg: "0 \<le> s \<Longrightarrow> 0 \<le> stateAfter k s"
  by (induction k) (simp_all add: random_state_nonneg)

text \<open>
  A seed that is not negative, and small enough for the first product to be an exact
  double, gives values from 0 (included) to 1 (excluded).
\<close>

lemma nthRandom_unit_interval:
  "0 \<le> seed \<Longrightarrow> seed * 9301 + 49297 \<le> 2 ^ 53 \<Longrightarrow>
     0 \<le> nthRandom seed k \<and> nthRandom seed k < 1"
  using random_nonneg [OF random_state_nonneg [OF stateAfter_nonneg, of seed k]]
    random_out_bounds [of "stateAfter k seed"]
  by (simp add: nthRandom_def createSeededRandom_def)

section \<open>The enumeration of chunk coordinates\<close>

lemma outsideWorld_iff:
  "\<not> outsideWorld x y \<longleftrightarrow>
     0 \<le> x \<and> 0 \<le> y \<and> x * chunkSize < worldWidth \<and> y * chunkSize < worldHeight"
  by (auto simp: outsideWorld_def)

lemma chunkIndex_multiple:
  assumes "round53 n = n"
  shows "chunkIndex (real_of_int n * 500) = n"
proof -
  have "toDouble (real_of_int n) = real_of_int n"
    using assms by (simp add: toDouble_of_int)
  moreover have "\<not> (- underflowBound \<le> real_of_int n * 500 \<and> real_of_int n * 500 < 0)"
  proof
    assume a: "- underflowBound \<le> real_of_int n * 500 \<and> real_of_int n * 500 < 0"
    then have "n < 0" by (simp add: mult_less_0_iff)
    then have "real_of_int n \<le> - 1" by linarith
    moreover have "underflowBound < 1" by (simp add: underflowBound_def)
    ultimately show False using a by linarith
  qed
  ultimately show ?thesis by (simp add: chunkIndex_def chunkSize_def)
qed

lemma chunkIndex_inner:
  assumes "real_of_int n * 500 + 1 \<le> v" and "v \<le> real_of_int n * 500 + 499"
    and "\<bar>v\<bar> \<le> 2 ^ 40"
  shows "chunkIndex v = n"
proof -
  let ?q = "v / 500"
  have e: "\<bar>toDouble ?q - ?q\<bar> \<le> \<bar>?q\<bar> / 2 ^ 53" by (rule toDouble_error)
  have "\<bar>?q\<bar> \<le> 2 ^ 40 / 500" using assms(3) by simp
  then have "\<bar>?q\<bar> / 2 ^ 53 \<le> 2 ^ 40 / 500 / 2 ^ 53" by (simp add: divide_right_mono)
  also have "\<dots> < 1 / 500" by simp
  finally have d: "\<bar>toDouble ?q - ?q\<bar> < 1 / 500" using e by linarith
  have "real_of_int n + 1 / 500 \<le> ?q" "?q \<le> real_of_int n + 499 / 500"
    using assms(1,2) by simp_all
  with d have "real_of_int n \<le> toDouble ?q" "toDouble ?q < real_of_int n + 1"
    by linarith+
  then have f: "\<lfloor>toDouble ?q\<rfloor> = n" by (simp add: floor_eq_iff)
  have "\<not> (- underflowBound \<le> v \<and> v < 0)"
  proof
    assume a: "- underflowBound \<le> v \<and> v < 0"
    with assms(1) have "real_of_int n * 500 < - 1" by linarith
    then have "n < 0" by (simp add: mult_less_0_iff) 
    then have "real_of_int n \<le> - 1" by linarith
    with assms(2) have "v \<le> - 1" by linarith
    moreover have "underflowBound < 1" by (simp add: underflowBound_def)
    ultimately show False using a by linarith
  qed
  then have "chunkIndex v = \<lfloor>toDouble (v / real_of_int chunkSize)\<rfloor>"
    unfolding chunkIndex_def by (rule if_not_P)
  with f show ?thesis by (simp add: chunkSize_def)
qed

lemma chunkIndex_2500: "chunkIndex 2500 = 5"
  using chunkIndex_multiple [of 5] by (simp add: round53_small)

lemma chunkIndex_3100: "chunkIndex 3100 = 6"
  using chunkIndex_inner [of 6 3100] by simp

lemma chunkIndex_4900: "chunkIndex 4900 = 9"
  using chunkIndex_inner [of 9 4900] by simp

lemma chunkIndex_zero: "chunkIndex 0 = 0"
  using chunkIndex_multiple [of 0] by (simp add: round53_small)

lemma chunkIndex_minus_one: "chunkIndex (- 1) = - 1"
  using chunkIndex_inner [of "- 1" "- 1"] by simp

text \<open>
  Where no counter reaches \<open>2^53\<close>, the loops return the coordinates of the square that
  are inside the world, in the order of the loops.
\<close>

lemma innerLoop_returns:
  assumes "- (2 ^ 53) < y" and "bound < 2 ^ 53 - 1"
  shows "innerLoop x y bound chunkKeys =
    Some (chunkKeys @ concat (map (\<lambda>y. if outsideWorld x y then [] else [(x, y)]) [y .. bound]))"
  using assms
proof (induction "nat (bound + 1 - y)" arbitrary: y chunkKeys)
  case 0
  then have "\<not> y \<le> bound" by simp
  then show ?case by (subst innerLoop.simps) simp
next
  case (Suc k)
  then have le: "y \<le> bound" by linarith
  with Suc.prems have r: "round53 (y + 1) = y + 1" by (intro round53_small) linarith
  have k: "k = nat (bound + 1 - (y + 1))" using Suc.hyps(2) by linarith
  have "- (2 ^ 53) < y + 1" using Suc.prems(1) by linarith
  note ih = Suc.hyps(1) [OF k this Suc.prems(2)]
  show ?case
    by (subst innerLoop.simps) (simp add: le r ih upto_rec1 [of y bound])
qed

lemma outerLoop_returns:
  assumes "- (2 ^ 53) < x" and "boundX < 2 ^ 53 - 1"
    and "- (2 ^ 53) < startY" and "boundY < 2 ^ 53 - 1"
  shows "outerLoop x boundX startY boundY chunkKeys =
    Some (chunkKeys @ concat (map (\<lambda>x.
       concat (map (\<lambda>y. if outsideWorld x y then [] else [(x, y)]) [startY .. boundY]))
       [x .. boundX]))"
  using assms(1,2)
proof (induction "nat (boundX + 1 - x)" arbitrary: x chunkKeys)
  case 0
  then have "\<not> x \<le> boundX" by simp
  then show ?case by (subst outerLoop.simps) simp
next
  case (Suc k)
  then have le: "x \<le> boundX" by linarith
  with Suc.prems have r: "round53 (x + 1) = x + 1" by (intro round53_small) linarith
  have k: "k = nat (boundX + 1 - (x + 1))" using Suc.hyps(2) by linarith
  have "- (2 ^ 53) < x + 1" using Suc.prems(1) by linarith
  note ih = Suc.hyps(1) [OF k this Suc.prems(2)]
  show ?case
    by (subst outerLoop.simps)
      (simp add: le r ih upto_rec1 [of x boundX] innerLoop_returns [OF assms(3,4)])
qed

lemma center_bound:
  assumes "\<bar>x\<bar> \<le> real_of_int maxSafeInteger"
  shows "\<bar>chunkIndex x\<bar> \<le> 18014398509482"
proof -
  let ?q = "x / 500"
  have e: "\<bar>toDouble ?q - ?q\<bar> \<le> \<bar>?q\<bar> / 2 ^ 53" by (rule toDouble_error)
  from assms have a: "\<bar>x\<bar> \<le> 9007199254740991" by (simp add: maxSafeInteger_def)
  then have q: "\<bar>?q\<bar> \<le> 9007199254740991 / 500" by simp
  then have "\<bar>?q\<bar> / 2 ^ 53 \<le> 9007199254740991 / 500 / 2 ^ 53"
    by (simp add: divide_right_mono)
  also have "\<dots> < 1 / 500" by simp
  finally have "\<bar>toDouble ?q - ?q\<bar> < 1 / 500" using e by linarith
  with q have "- 18014398509482 \<le> toDouble ?q" "toDouble ?q < 18014398509482"
    by linarith+
  then have "real_of_int (- 18014398509482) \<le> toDouble ?q"
    "toDouble ?q < real_of_int 18014398509482"
    by simp_all
  then have "- 18014398509482 \<le> \<lfloor>toDouble ?q\<rfloor>" "\<lfloor>toDouble ?q\<rfloor> < 18014398509482"
    by (simp_all only: le_floor_iff floor_less_iff)
  then have "\<bar>\<lfloor>toDouble (x / real_of_int chunkSize)\<rfloor>\<bar> \<le> 18014398509482"
    unfolding chunkSize_def by (simp only: of_int_numeral)
  then show ?thesis by (simp add: chunkIndex_def)
qed

lemma chunkCoordsLoop_returns:
  assumes "\<bar>chunkIndex (pos_x pos)\<bar> + \<bar>d\<bar> < 2 ^ 53 - 1"
    and "\<bar>chunkIndex (pos_y pos)\<bar> + \<bar>d\<bar> < 2 ^ 53 - 1"
  shows "chunkCoordsLoop pos d =
    Some (concat (map (\<lambda>x.
       concat (map (\<lambda>y. if outsideWorld x y then [] else [(x, y)])
         [chunkIndex (pos_y pos) - d .. chunkIndex (pos_y pos) + d]))
       [chunkIndex (pos_x pos) - d .. chunkIndex (pos_x pos) + d]))"
proof -
  let ?cx = "chunkIndex (pos_x pos)" and ?cy = "chunkIndex (pos_y pos)"
  have r: "round53 (?cx - d) = ?cx - d" "round53 (?cx + d) = ?cx + d"
    "round53 (?cy - d) = ?cy - d" "round53 (?cy + d) = ?cy + d"
    using assms by (auto intro!: round53_small)
  have b: "- (2 ^ 53) < ?cx - d" "?cx + d < 2 ^ 53 - 1"
    "- (2 ^ 53) < ?cy - d" "?cy + d < 2 ^ 53 - 1"
    using assms by linarith+
  show ?thesis
    unfolding chunkCoordsLoop_def Let_def r by (simp add: outerLoop_returns [OF b])
qed

lemma chunkCoords_at:
  assumes "chunkIndex (pos_x pos) = cx" and "chunkIndex (pos_y pos) = cy"
    and "\<bar>cx\<bar> + \<bar>d\<bar> < 2 ^ 53 - 1" and "\<bar>cy\<bar> + \<bar>d\<bar> < 2 ^ 53 - 1"
  shows "chunkCoordsForPosition pos d =
    concat (map (\<lambda>x. concat (map (\<lambda>y. if outsideWorld x y then [] else [(x, y)])
      [cy - d .. cy + d])) [cx - d .. cx + d])"
  using chunkCoordsLoop_returns [of pos d] assms by (simp add: chunkCoordsForPosition_def)

lemma safePosition_returns:
  assumes "safePosition pos"
  shows "chunkCoordsLoop pos 2 = Some (chunkCoordsForPosition pos 2)"
proof -
  from assms center_bound [of "pos_x pos"] center_bound [of "pos_y pos"]
  have "\<bar>chunkIndex (pos_x pos)\<bar> \<le> 18014398509482"
    "\<bar>chunkIndex (pos_y pos)\<bar> \<le> 18014398509482"
    by (simp_all add: safePosition_def)
  then have "\<bar>chunkIndex (pos_x pos)\<bar> + \<bar>2\<bar> < 2 ^ 53 - 1"
    "\<bar>chunkIndex (pos_y pos)\<bar> + \<bar>2\<bar> < 2 ^ 53 - 1"
    by simp_all
  from chunkCoordsLoop_returns [OF this] show ?thesis by (simp add: chunkCoordsForPosition_def)
qed

text \<open>
  Whatever the position and the distance, a coordinate that the loops return has passed the
  test of the \<open>continue\<close>.
\<close>

lemma innerLoop_inside:
  assumes "innerLoop x y bound chunkKeys = Some r"
  shows "set r \<subseteq> set chunkKeys \<union> {(x, y). \<not> outsideWorld x y}"
proof (rule innerLoop.raw_induct [where P = "\<lambda>x y bound chunkKeys r.
    set r \<subseteq> set chunkKeys \<union> {(x, y). \<not> outsideWorld x y}"
    and xa = "(((x, y), bound), chunkKeys)" and ya = r, simplified prod.case, OF _ assms])
  fix f x y bound chunkKeys r
  assume ih: "\<And>x y bound chunkKeys r. f x y bound chunkKeys = Some r \<Longrightarrow>
    set r \<subseteq> set chunkKeys \<union> {(x, y). \<not> outsideWorld x y}"
    and b: "(if y \<le> bound
      then f x (round53 (y + 1)) bound
             (if outsideWorld x y then chunkKeys else chunkKeys @ [(x, y)])
      else Some chunkKeys) = Some r"
  show "set r \<subseteq> set chunkKeys \<union> {(x, y). \<not> outsideWorld x y}"
  proof (cases "y \<le> bound")
    case True
    with b have "f x (round53 (y + 1)) bound
        (if outsideWorld x y then chunkKeys else chunkKeys @ [(x, y)]) = Some r" by simp
    from ih [OF this] show ?thesis by (auto split: if_splits)
  next
    case False
    with b show ?thesis by auto
  qed
qed

lemma outerLoop_inside:
  assumes "outerLoop x boundX startY boundY chunkKeys = Some r"
  shows "set r \<subseteq> set chunkKeys \<union> {(x, y). \<not> outsideWorld x y}"
proof (rule outerLoop.raw_induct [where P = "\<lambda>x boundX startY boundY chunkKeys r.
    set r \<subseteq> set chunkKeys \<union> {(x, y). \<not> outsideWorld x y}"
    and xa = "((((x, boundX), startY), boundY), chunkKeys)" and y = r, simplified prod.case,
    OF _ assms])
  fix f x boundX startY boundY chunkKeys r
  assume ih: "\<And>x boundX startY boundY chunkKeys r.
    f x boundX startY boundY chunkKeys = Some r \<Longrightarrow>
    set r \<subseteq> set chunkKeys \<union> {(x, y). \<not> outsideWorld x y}"
    and b: "(if x \<le> boundX
      then Option.bind (innerLoop x startY boundY chunkKeys)
             (f (round53 (x + 1)) boundX startY boundY)
      else Some chunkKeys) = Some r"
  show "set r \<subseteq> set chunkKeys \<union> {(x, y). \<not> outsideWorld x y}"
  proof (cases "x \<le> boundX")
    case True
    with b obtain ks where i: "innerLoop x startY boundY chunkKeys = Some ks"
      and o: "f (round53 (x + 1)) boundX startY boundY ks = Some r"
      by (auto simp: bind_eq_Some_conv)
    from ih [OF o] innerLoop_inside [OF i] show ?thesis by blast
  next
    case False
    with b show ?thesis by auto
  qed
qed

lemma chunkCoords_inside:
  "(x, y) \<in> set (chunkCoordsForPosition pos d) \<Longrightarrow> \<not> outsideWorld x y"
proof (cases "chunkCoordsLoop pos d")
  case None
  assume "(x, y) \<in> set (chunkCoordsForPosition pos d)"
  with None show ?thesis by (simp add: chunkCoordsForPosition_def)
next
  case (Some r)
  assume "(x, y) \<in> set (chunkCoordsForPosition pos d)"
  with Some have "(x, y) \<in> set r" by (simp add: chunkCoordsForPosition_def)
  moreover from Some have "set r \<subseteq> set [] \<union> {(x, y). \<not> outsideWorld x y}"
    unfolding chunkCoordsLoop_def Let_def by (rule outerLoop_inside)
  ultimately show ?thesis by auto
qed


text \<open>
  An outer loop whose counter is its own successor does not return. So it is for the
  position (5 * 10^18, 0): the centre chunk is \<open>10^16\<close>, the counter starts at
  \<open>10^16 - 2\<close>, is incremented to \<open>10^16\<close> (the double nearest to \<open>10^16 - 1\<close>) and
  stays there, below the bound \<open>10^16 + 2\<close>.
\<close>

lemma outerLoop_stalls:
  assumes "round53 (x + 1) = x" and "x \<le> boundX"
  shows "outerLoop x boundX startY boundY chunkKeys = None"
proof (rule ccontr)
  assume "outerLoop x boundX startY boundY chunkKeys \<noteq> None"
  then obtain r where r: "outerLoop x boundX startY boundY chunkKeys = Some r" by blast
  have "\<not> (round53 (x + 1) = x \<and> x \<le> boundX)"
  proof (rule outerLoop.raw_induct [where P = "\<lambda>x boundX startY boundY chunkKeys r.
      \<not> (round53 (x + 1) = x \<and> x \<le> boundX)"
      and xa = "((((x, boundX), startY), boundY), chunkKeys)" and y = r, simplified prod.case,
      OF _ r])
    fix f x boundX startY boundY chunkKeys r
    assume ih: "\<And>x boundX startY boundY chunkKeys r.
      f x boundX startY boundY chunkKeys = Some r \<Longrightarrow>
      \<not> (round53 (x + 1) = x \<and> x \<le> boundX)"
      and b: "(if x \<le> boundX
        then Option.bind (innerLoop x startY boundY chunkKeys)
               (f (round53 (x + 1)) boundX startY boundY)
        else Some chunkKeys) = Some r"
    show "\<not> (round53 (x + 1) = x \<and> x \<le> boundX)"
    proof
      assume s: "round53 (x + 1) = x \<and> x \<le> boundX"
      with b obtain ks where "f x boundX startY boundY ks = Some r"
        by (auto simp: bind_eq_Some_conv)
      from ih [OF this] s show False by blast
    qed
  qed
  with assms show False by blast
qed

lemma round53_evals:
  "round53 10000000000000000 = 10000000000000000"
  "round53 9999999999999998 = 9999999999999998"
  "round53 10000000000000002 = 10000000000000002"
  "round53 9999999999999999 = 10000000000000000"
  "round53 10000000000000001 = 10000000000000000"
  "round53 (- 2) = - 2" "round53 2 = 2"
  by code_simp+

lemma chunkIndex_far: "chunkIndex 5000000000000000000 = 10000000000000000"
  using chunkIndex_multiple [of 10000000000000000] by (simp add: round53_evals)

lemma chunkCoordsLoop_far:
  "chunkCoordsLoop \<lparr>pos_x = 5000000000000000000, pos_y = 0\<rparr> 2 = None"
proof -
  have i: "innerLoop 9999999999999998 (- 2) 2 [] = Some []"
    by (simp add: innerLoop_returns outsideWorld_def chunkSize_def worldWidth_def)
  have s: "outerLoop 10000000000000000 10000000000000002 (- 2) 2 [] = None"
    by (rule outerLoop_stalls) (simp_all add: round53_evals)
  show ?thesis
    unfolding chunkCoordsLoop_def Let_def
    by (simp add: chunkIndex_far chunkIndex_zero round53_evals)
      (subst outerLoop.simps, simp add: i round53_evals s)
qed

lemma coords_2500:
  "chunkCoordsForPosition \<lparr>pos_x = 2500, pos_y = 2500\<rparr> 2 =
     [(3,3),(3,4),(3,5),(3,6),(3,7),(4,3),(4,4),(4,5),(4,6),(4,7),(5,3),(5,4),(5,5),(5,6),(5,7),
      (6,3),(6,4),(6,5),(6,6),(6,7),(7,3),(7,4),(7,5),(7,6),(7,7)]"
  using chunkCoords_at [of "\<lparr>pos_x = 2500, pos_y = 2500\<rparr>" 5 5 2]
  by (simp add: chunkIndex_2500 chunkSize_def worldWidth_def worldHeight_def outsideWorld_def
        upto_rec1)

lemma keys_2500:
  "getChunksForPosition \<lparr>pos_x = 2500, pos_y = 2500\<rparr> 2 =
     [''3,3'',''3,4'',''3,5'',''3,6'',''3,7'',''4,3'',''4,4'',''4,5'',''4,6'',''4,7'',
      ''5,3'',''5,4'',''5,5'',''5,6'',''5,7'',''6,3'',''6,4'',''6,5'',''6,6'',''6,7'',
      ''7,3'',''7,4'',''7,5'',''7,6'',''7,7'']"
  by (simp add: getChunksForPosition_def coords_2500 chunkKeyOf_def numberToString_def
        digitsOf_small)

lemma coords_3100:
  "chunkCoordsForPosition \<lparr>pos_x = 3100, pos_y = 2500\<rparr> 2 =
     [(4,3),(4,4),(4,5),(4,6),(4,7),(5,3),(5,4),(5,5),(5,6),(5,7),(6,3),(6,4),(6,5),(6,6),(6,7),
      (7,3),(7,4),(7,5),(7,6),(7,7),(8,3),(8,4),(8,5),(8,6),(8,7)]"
  using chunkCoords_at [of "\<lparr>pos_x = 3100, pos_y = 2500\<rparr>" 6 5 2]
  by (simp add: chunkIndex_3100 chunkIndex_2500 chunkSize_def worldWidth_def worldHeight_def
        outsideWorld_def upto_rec1)

lemma coords_4900:
  "chunkCoordsForPosition \<lparr>pos_x = 4900, pos_y = 2500\<rparr> 2 =
     [(7,3),(7,4),(7,5),(7,6),(7,7),(8,3),(8,4),(8,5),(8,6),(8,7),(9,3),(9,4),(9,5),(9,6),(9,7)]"
  using chunkCoords_at [of "\<lparr>pos_x = 4900, pos_y = 2500\<rparr>" 9 5 2]
  by (simp add: chunkIndex_4900 chunkIndex_2500 chunkSize_def worldWidth_def worldHeight_def
        outsideWorld_def upto_rec1)


text \<open>
  C6. For every position and every radius, no coordinate that the enumeration returns is
  negative on either axis, and none has its chunk origin (the coordinate times the chunk
  size) at or beyond the world's width or height; the keys returned are these coordinates,
  written as strings that parse back to them. With width and height 5000 and chunk size 500,
  the chunk that contains the position (2500, 2500) is (5, 5), and radius 2 gives exactly
  the 25 coordinates from (3, 3) to (7, 7).
\<close>

theorem chunk_enumeration_inside_world:
  "(\<forall>(x, y) \<in> set (chunkCoordsForPosition pos d).
      0 \<le> x \<and> 0 \<le> y \<and> x * chunkSize < worldWidth \<and> y * chunkSize < worldHeight) \<and>
   map parseChunkKey (getChunksForPosition pos d) =
     map (\<lambda>(x, y). (Some x, Some y)) (chunkCoordsForPosition pos d) \<and>
   worldWidth = 5000 \<and> worldHeight = 5000 \<and> chunkSize = 500 \<and>
   getChunkKey 2500 2500 = chunkKeyOf 5 5 \<and>
   chunkCoordsForPosition \<lparr>pos_x = 2500, pos_y = 2500\<rparr> 2 =
     [(3,3),(3,4),(3,5),(3,6),(3,7),(4,3),(4,4),(4,5),(4,6),(4,7),(5,3),(5,4),(5,5),(5,6),(5,7),
      (6,3),(6,4),(6,5),(6,6),(6,7),(7,3),(7,4),(7,5),(7,6),(7,7)]"
proof -
  have "\<forall>(x, y) \<in> set (chunkCoordsForPosition pos d).
      0 \<le> x \<and> 0 \<le> y \<and> x * chunkSize < worldWidth \<and> y * chunkSize < worldHeight"
    using chunkCoords_inside outsideWorld_iff by blast
  moreover have "map parseChunkKey (getChunksForPosition pos d) =
     map (\<lambda>(x, y). (Some x, Some y)) (chunkCoordsForPosition pos d)"
    by (simp add: getChunksForPosition_def parseChunkKey_chunkKeyOf split_def)
  moreover have "getChunkKey 2500 2500 = chunkKeyOf 5 5"
    by (simp add: getChunkKey_def chunkIndex_2500)
  ultimately show ?thesis
    by (simp add: coords_2500) (simp add: worldWidth_def worldHeight_def chunkSize_def)
qed

theorem chunk_enumeration_inside_world_witness:
  "(7, 3) \<in> set (chunkCoordsForPosition \<lparr>pos_x = 3100, pos_y = 2500\<rparr> 2) \<and>
   (0::int) \<le> 7 \<and> (0::int) \<le> 3 \<and> 7 * chunkSize < worldWidth \<and> 3 * chunkSize < worldHeight \<and>
   (10, 3) \<notin> set (chunkCoordsForPosition \<lparr>pos_x = 4900, pos_y = 2500\<rparr> 2)"
proof -
  have m: "(7, 3) \<in> set (chunkCoordsForPosition \<lparr>pos_x = 3100, pos_y = 2500\<rparr> 2)"
    by (simp add: coords_3100)
  have n: "(10, 3) \<notin> set (chunkCoordsForPosition \<lparr>pos_x = 4900, pos_y = 2500\<rparr> 2)"
    by (simp add: coords_4900)
  from chunk_enumeration_inside_world [of "\<lparr>pos_x = 3100, pos_y = 2500\<rparr>" 2] m
  have "0 \<le> (7::int) \<and> 0 \<le> (3::int) \<and> 7 * chunkSize < worldWidth \<and> 3 * chunkSize < worldHeight"
    by blast
  with m n show ?thesis by simp
qed

section \<open>What the chunk cache and the registry keep\<close>

lemma getOrGenerateChunk_frame:
  "players (snd (getOrGenerateChunk w k)) = players w"
  "playerChunks (snd (getOrGenerateChunk w k)) = playerChunks w"
  "maxPlayers (snd (getOrGenerateChunk w k)) = maxPlayers w"
  "world_id (snd (getOrGenerateChunk w k)) = world_id w"
  by (simp_all add: getOrGenerateChunk_def Let_def split: option.splits prod.splits)

lemma getOrGenerateChunk_cache:
  "loadedChunks (snd (getOrGenerateChunk w k)) =
     (loadedChunks w)(k \<mapsto> fst (getOrGenerateChunk w k))"
  by (auto simp: getOrGenerateChunk_def Let_def split: option.splits prod.splits)

lemma getOrGenerateChunk_keeps:
  "loadedChunks w k' = Some c \<Longrightarrow> loadedChunks (snd (getOrGenerateChunk w k)) k' = Some c"
  by (cases "loadedChunks w k") (auto simp: getOrGenerateChunk_def Let_def split: prod.splits)

lemma getOrGenerateChunk_coords:
  "loadedChunks w k = None \<Longrightarrow>
     (chunk_x (fst (getOrGenerateChunk w k)), chunk_y (fst (getOrGenerateChunk w k))) =
       parseChunkKey k"
  by (auto simp: getOrGenerateChunk_def generateChunk_def Let_def
        split: prod.splits option.splits)

lemma getOrGenerateChunks_Cons:
  "getOrGenerateChunks w (k # ks) =
     (fst (getOrGenerateChunk w k) # fst (getOrGenerateChunks (snd (getOrGenerateChunk w k)) ks),
      snd (getOrGenerateChunks (snd (getOrGenerateChunk w k)) ks))"
  by (simp split: prod.splits)

lemma getOrGenerateChunks_frame:
  "players (snd (getOrGenerateChunks w ks)) = players w"
  "playerChunks (snd (getOrGenerateChunks w ks)) = playerChunks w"
  "maxPlayers (snd (getOrGenerateChunks w ks)) = maxPlayers w"
  "world_id (snd (getOrGenerateChunks w ks)) = world_id w"
  by (induction ks arbitrary: w;
      simp add: getOrGenerateChunks_Cons getOrGenerateChunk_frame
        del: getOrGenerateChunks.simps(2))+

lemma getOrGenerateChunks_keeps:
  "loadedChunks w k' = Some c \<Longrightarrow> loadedChunks (snd (getOrGenerateChunks w ks)) k' = Some c"
  by (induction ks arbitrary: w)
     (simp_all add: getOrGenerateChunks_Cons getOrGenerateChunk_keeps
        del: getOrGenerateChunks.simps(2))

lemma getOrGenerateChunks_result:
  "list_all2 (\<lambda>c k. loadedChunks (snd (getOrGenerateChunks w ks)) k = Some c)
     (fst (getOrGenerateChunks w ks)) ks"
  by (induction ks arbitrary: w)
     (simp_all add: getOrGenerateChunks_Cons getOrGenerateChunks_keeps getOrGenerateChunk_cache
        del: getOrGenerateChunks.simps(2))

lemma getOrGenerateChunk_keyed: "cacheKeyed w \<Longrightarrow> cacheKeyed (snd (getOrGenerateChunk w k))"
proof (cases "loadedChunks w k")
  case None
  assume "cacheKeyed w"
  then show ?thesis
    using getOrGenerateChunk_coords [OF None]
    by (auto simp: cacheKeyed_def getOrGenerateChunk_cache)
next
  case (Some c)
  assume "cacheKeyed w"
  then show ?thesis by (simp add: getOrGenerateChunk_def Some)
qed

lemma getOrGenerateChunks_keyed: "cacheKeyed w \<Longrightarrow> cacheKeyed (snd (getOrGenerateChunks w ks))"
  by (induction ks arbitrary: w)
     (simp_all add: getOrGenerateChunks_Cons getOrGenerateChunk_keyed
        del: getOrGenerateChunks.simps(2))

lemma addPlayer_players:
  "players (addPlayer w p) =
     (if players w (player_id p) \<noteq> None then players w else (players w)(player_id p \<mapsto> p))"
  by (simp add: addPlayer_def Let_def getOrGenerateChunks_frame)

lemma addPlayer_playerChunks:
  "playerChunks (addPlayer w p) =
     (if players w (player_id p) \<noteq> None then playerChunks w
      else (playerChunks w)(player_id p \<mapsto> set (getChunksForPosition (position p) 2)))"
  by (simp add: addPlayer_def Let_def getOrGenerateChunks_frame)

lemma addPlayer_maxPlayers: "maxPlayers (addPlayer w p) = maxPlayers w"
  by (simp add: addPlayer_def Let_def getOrGenerateChunks_frame)

lemma addPlayer_world_id: "world_id (addPlayer w p) = world_id w"
  by (simp add: addPlayer_def Let_def getOrGenerateChunks_frame)

lemma addPlayer_keyed: "cacheKeyed w \<Longrightarrow> cacheKeyed (addPlayer w p)"
proof -
  assume k: "cacheKeyed w"
  have "cacheKeyed (w\<lparr>players := a, playerChunks := b\<rparr>)" for a b
    using k by (simp add: cacheKeyed_def)
  then show ?thesis by (simp add: addPlayer_def Let_def getOrGenerateChunks_keyed k)
qed

lemma getNewChunks_players: "players (snd (getNewChunksForPlayer w p)) = players w"
  by (simp add: getNewChunksForPlayer_def Let_def getOrGenerateChunks_frame)

lemma getNewChunks_maxPlayers: "maxPlayers (snd (getNewChunksForPlayer w p)) = maxPlayers w"
  by (simp add: getNewChunksForPlayer_def Let_def getOrGenerateChunks_frame)

lemma getNewChunks_world_id: "world_id (snd (getNewChunksForPlayer w p)) = world_id w"
  by (simp add: getNewChunksForPlayer_def Let_def getOrGenerateChunks_frame)

lemma getNewChunks_playerChunks:
  "playerChunks (snd (getNewChunksForPlayer w p)) =
     (playerChunks w)(player_id p \<mapsto> set (getChunksForPosition (position p) 2))"
  by (simp add: getNewChunksForPlayer_def Let_def getOrGenerateChunks_frame)

lemma getNewChunks_keyed: "cacheKeyed w \<Longrightarrow> cacheKeyed (snd (getNewChunksForPlayer w p))"
proof -
  assume k: "cacheKeyed w"
  have "cacheKeyed (w\<lparr>playerChunks := b\<rparr>)" for b
    using k by (simp add: cacheKeyed_def)
  then show ?thesis by (simp add: getNewChunksForPlayer_def Let_def getOrGenerateChunks_keyed)
qed

lemma getNewChunks_fst:
  "fst (getNewChunksForPlayer w p) =
     fst (getOrGenerateChunks
            (w\<lparr>playerChunks :=
                 (playerChunks w)(player_id p \<mapsto> set (getChunksForPosition (position p) 2))\<rparr>)
            (filter (\<lambda>key. key \<notin> prevChunkKeysOf w (player_id p))
               (getChunksForPosition (position p) 2)))"
  by (simp add: getNewChunksForPlayer_def Let_def)

lemma filter_not_in_set: "filter (\<lambda>k. k \<notin> set ks) ks = []"
  by (simp add: filter_empty_conv)

text \<open>
  What every reachable world satisfies: the constructor's arguments stay, the registry is
  finite, every registered player has a visibility set, and the cache is keyed.
\<close>

lemma reachable_inv:
  "reachable wid maxP w \<Longrightarrow>
     maxPlayers w = maxP \<and> world_id w = wid \<and> finite (dom (players w)) \<and>
     dom (players w) \<subseteq> dom (playerChunks w) \<and> cacheKeyed w"
proof (induction rule: reachable.induct)
  case reach_new
  then show ?case by (simp add: newGameWorld_def cacheKeyed_def)
next
  case (reach_addPlayer w player)
  then show ?case
    by (cases "players w (player_id player)")
       (auto simp: addPlayer_players addPlayer_playerChunks addPlayer_maxPlayers
          addPlayer_world_id addPlayer_keyed simp del: fun_upd_apply)
next
  case (reach_updatePlayer w player)
  then show ?case
    by (cases "players w (player_id player)")
       (auto simp: updatePlayer_def cacheKeyed_def simp del: fun_upd_apply)
next
  case (reach_removePlayer w playerId)
  then show ?case by (auto simp: removePlayer_def cacheKeyed_def simp del: fun_upd_apply)
next
  case (reach_getChunksNearPosition w pos distance)
  then show ?case
    by (simp add: getChunksNearPosition_def getOrGenerateChunks_frame getOrGenerateChunks_keyed)
next
  case (reach_getNewChunksForPlayer w player)
  then show ?case
    by (auto simp: getNewChunks_players getNewChunks_maxPlayers getNewChunks_playerChunks
          getNewChunks_world_id getNewChunks_keyed simp del: fun_upd_apply)
next
  case (reach_getChunkAtPosition w pos)
  then show ?case
    by (simp add: getChunkAtPosition_def getOrGenerateChunk_frame getOrGenerateChunk_keyed)
qed

lemma aliceWorld_reachable: "reachable ''w'' 1 aliceWorld"
  unfolding aliceWorld_def by (intro reach_addPlayer reach_new)

lemma aliceWorld_players: "players aliceWorld = [''alice'' \<mapsto> alice]"
  by (simp add: aliceWorld_def addPlayer_players newGameWorld_def alice_def)


section \<open>Capacity\<close>

text \<open>
  C7, as amended. In every world state that the operations of GameWorld can reach,
  the registry is finite and \<open>isFull\<close> is true exactly when the number of players is
  at least the maximum the world was constructed with.
\<close>

theorem isFull_iff_at_least:
  "reachable wid maxP w \<Longrightarrow>
     finite (dom (players w)) \<and> getPlayerCount w = card (dom (players w)) \<and>
     (isFull w \<longleftrightarrow> maxP \<le> int (getPlayerCount w))"
  using reachable_inv [of wid maxP w] by (simp add: isFull_def getPlayerCount_def)

theorem isFull_iff_at_least_witness:
  "reachable ''w'' 1 aliceWorld \<and> getPlayerCount aliceWorld = 1 \<and> isFull aliceWorld"
proof -
  have c: "getPlayerCount aliceWorld = 1"
    by (simp add: getPlayerCount_def aliceWorld_players)
  show ?thesis
    using isFull_iff_at_least [OF aliceWorld_reachable] aliceWorld_reachable c by simp
qed

text \<open>
  C7 as stated fails: \<open>addPlayer\<close> does not look at the capacity, so a world for one player
  reaches a state with two, where \<open>isFull\<close> is true although the count is not the maximum.
\<close>

theorem isFull_beyond_maximum:
  "reachable ''w'' 1 (addPlayer aliceWorld bob) \<and>
   isFull (addPlayer aliceWorld bob) \<and>
   getPlayerCount (addPlayer aliceWorld bob) = 2 \<and>
   maxPlayers (addPlayer aliceWorld bob) = 1"
proof -
  have "reachable ''w'' 1 (addPlayer aliceWorld bob)"
    by (intro reach_addPlayer aliceWorld_reachable)
  moreover have "maxPlayers (addPlayer aliceWorld bob) = 1"
    by (simp add: addPlayer_maxPlayers aliceWorld_def newGameWorld_def)
  moreover have "dom (players (addPlayer aliceWorld bob)) = {''alice'', ''bob''}"
    by (auto simp: addPlayer_players aliceWorld_players bob_def)
  ultimately show ?thesis by (simp add: isFull_def getPlayerCount_def)
qed

section \<open>Joining twice, updating the unknown, leaving twice\<close>

text \<open>
  C9. \<open>addPlayer\<close> with an id that is in the registry and \<open>updatePlayer\<close> with an id
  that is not each return the world unchanged: registry, visibility sets, chunk cache and
  all. \<open>removePlayer\<close> deletes the player's record and visibility set whether or not they
  exist, and removing the same id twice gives the state that removing it once gives.
\<close>

theorem noop_and_idempotent_updates:
  "(players w (player_id p) \<noteq> None \<longrightarrow> addPlayer w p = w) \<and>
   (players w (player_id p) = None \<longrightarrow> updatePlayer w p = w) \<and>
   players (removePlayer w i) i = None \<and> playerChunks (removePlayer w i) i = None \<and>
   removePlayer (removePlayer w i) i = removePlayer w i"
  by (simp add: addPlayer_def updatePlayer_def removePlayer_def)

theorem noop_and_idempotent_updates_witness:
  "players aliceWorld (player_id alice) \<noteq> None \<and> addPlayer aliceWorld alice = aliceWorld \<and>
   players aliceWorld (player_id bob) = None \<and> updatePlayer aliceWorld bob = aliceWorld \<and>
   removePlayer (removePlayer aliceWorld ''alice'') ''alice'' = removePlayer aliceWorld ''alice''"
  using noop_and_idempotent_updates [of aliceWorld alice "''alice''"]
    noop_and_idempotent_updates [of aliceWorld bob "''alice''"]
  by (simp add: aliceWorld_players alice_def bob_def)

section \<open>The visibility delta\<close>




text \<open>
  C10, as amended. If \<open>getNewChunksForPlayer\<close> is called for an id that has no
  visibility set (in a reachable world such an id is not in the registry either), at a
  position whose coordinates are at most \<open>2^53 - 1\<close> in absolute value, the loops that
  enumerate the keys near the position return, and the call takes the previous set as
  empty, returns one chunk for every key near the player's position, stores these keys as
  the visibility set of the id and leaves the registry as it was: when the id has no player
  record, it has a visibility set without one afterwards.
\<close>

theorem getNewChunksForPlayer_untracked:
  assumes "playerChunks w (player_id p) = None" and "safePosition (position p)"
  shows "chunkCoordsLoop (position p) 2 = Some (chunkCoordsForPosition (position p) 2) \<and>
     prevChunkKeysOf w (player_id p) = {} \<and>
     list_all2 (\<lambda>c k. loadedChunks (snd (getNewChunksForPlayer w p)) k = Some c)
       (fst (getNewChunksForPlayer w p)) (getChunksForPosition (position p) 2) \<and>
     playerChunks (snd (getNewChunksForPlayer w p)) (player_id p) =
       Some (set (getChunksForPosition (position p) 2)) \<and>
     players (snd (getNewChunksForPlayer w p)) = players w \<and>
     (\<forall>wid maxP. reachable wid maxP w \<longrightarrow> players w (player_id p) = None)"
proof -
  have prev: "prevChunkKeysOf w (player_id p) = {}"
    using assms(1) by (simp add: prevChunkKeysOf_def)
  have 1: "list_all2 (\<lambda>c k. loadedChunks (snd (getNewChunksForPlayer w p)) k = Some c)
       (fst (getNewChunksForPlayer w p)) (getChunksForPosition (position p) 2)"
    using getOrGenerateChunks_result by (simp add: getNewChunksForPlayer_def Let_def prev)
  have 2: "\<forall>wid maxP. reachable wid maxP w \<longrightarrow> players w (player_id p) = None"
    using assms(1) reachable_inv by blast
  from prev 1 2 safePosition_returns [OF assms(2)] show ?thesis
    by (simp add: getNewChunks_playerChunks getNewChunks_players)
qed

theorem getNewChunksForPlayer_untracked_witness:
  "playerChunks (newGameWorld ''w'' 1) (player_id ghost) = None \<and>
   safePosition (position ghost) \<and>
   length (fst (getNewChunksForPlayer (newGameWorld ''w'' 1) ghost)) = 25 \<and>
   playerChunks (snd (getNewChunksForPlayer (newGameWorld ''w'' 1) ghost)) ''ghost'' =
     Some (set (getChunksForPosition \<lparr>pos_x = 2500, pos_y = 2500\<rparr> 2)) \<and>
   players (snd (getNewChunksForPlayer (newGameWorld ''w'' 1) ghost)) ''ghost'' = None"
proof -
  have n: "playerChunks (newGameWorld ''w'' 1) (player_id ghost) = None"
    by (simp add: newGameWorld_def)
  have sp: "safePosition (position ghost)"
    by (simp add: ghost_def safePosition_def maxSafeInteger_def)
  have "length (fst (getNewChunksForPlayer (newGameWorld ''w'' 1) ghost)) =
        length (getChunksForPosition (position ghost) 2)"
    using getNewChunksForPlayer_untracked [OF n sp] list_all2_lengthD by blast
  then have l: "length (fst (getNewChunksForPlayer (newGameWorld ''w'' 1) ghost)) = 25"
    by (simp add: ghost_def keys_2500)
  from getNewChunksForPlayer_untracked [OF n sp] n sp l show ?thesis
    by (simp add: ghost_def newGameWorld_def)
qed

text \<open>
  C10 as stated, for every id that is not in the registry, fails: the first call for the
  unregistered Ghost leaves a visibility set, so the second call in the world it gives,
  where Ghost is still not registered, returns no chunk although 25 keys are near.
\<close>

theorem getNewChunksForPlayer_twice_unregistered:
  "reachable ''w'' 1 (snd (getNewChunksForPlayer (newGameWorld ''w'' 1) ghost)) \<and>
   players (snd (getNewChunksForPlayer (newGameWorld ''w'' 1) ghost)) (player_id ghost) = None \<and>
   length (getChunksForPosition (position ghost) 2) = 25 \<and>
   fst (getNewChunksForPlayer (snd (getNewChunksForPlayer (newGameWorld ''w'' 1) ghost)) ghost) = []"
proof -
  have "reachable ''w'' 1 (snd (getNewChunksForPlayer (newGameWorld ''w'' 1) ghost))"
    by (intro reach_getNewChunksForPlayer reach_new)
  moreover have
    "players (snd (getNewChunksForPlayer (newGameWorld ''w'' 1) ghost)) (player_id ghost) = None"
    by (simp add: getNewChunks_players newGameWorld_def)
  moreover have "length (getChunksForPosition (position ghost) 2) = 25"
    by (simp add: ghost_def keys_2500)
  moreover have
    "fst (getNewChunksForPlayer (snd (getNewChunksForPlayer (newGameWorld ''w'' 1) ghost)) ghost) = []"
    by (simp add: getNewChunks_fst prevChunkKeysOf_def getNewChunks_playerChunks
          filter_not_in_set)
  ultimately show ?thesis by simp
qed

section \<open>Generation does not depend on identifiers or on where the chunk lies\<close>

text \<open>
  The collision checks compare differences of coordinates only, so a loop that runs in chunk
  \<open>(cx, cy)\<close> does what the same loop does in chunk (0, 0), moved by the chunk's origin;
  and no step looks at an identifier or a counter.
\<close>

lemma sizeOr10_shiftEl: "sizeOr10 (shiftEl dx dy e) = sizeOr10 e"
  by (simp add: sizeOr10_def shiftEl_def)

lemma checkCollision_shift:
  "checkCollisionWithExistingElements (x + dx) (y + dy) sz (map (shiftEl dx dy) els) =
   checkCollisionWithExistingElements x y sz els"
proof (induction els)
  case Nil
  show ?case by simp
next
  case (Cons e es)
  have a: "real_of_int (x + dx) + real_of_int sz / 2 -
        (real_of_int (el_x (shiftEl dx dy e)) + real_of_int (sizeOr10 e) / 2) =
      real_of_int x + real_of_int sz / 2 - (real_of_int (el_x e) + real_of_int (sizeOr10 e) / 2)"
    by (simp add: shiftEl_def)
  have b: "real_of_int (y + dy) + real_of_int sz / 2 -
        (real_of_int (el_y (shiftEl dx dy e)) + real_of_int (sizeOr10 e) / 2) =
      real_of_int y + real_of_int sz / 2 - (real_of_int (el_y e) + real_of_int (sizeOr10 e) / 2)"
    by (simp add: shiftEl_def)
  show ?case
    by (simp only: list.map checkCollisionWithExistingElements.simps sizeOr10_shiftEl Let_def
          a b Cons.IH)
qed

lemma flowerPositionValid_shift:
  "flowerPositionValid (x + dx) (y + dy) (map (shiftEl dx dy) els) = flowerPositionValid x y els"
proof (induction els)
  case Nil
  show ?case by simp
next
  case (Cons e es)
  have a: "real_of_int (x + dx) -
        (real_of_int (el_x (shiftEl dx dy e)) + real_of_int (sizeOr10 e) / 2) =
      real_of_int x - (real_of_int (el_x e) + real_of_int (sizeOr10 e) / 2)"
    by (simp add: shiftEl_def)
  have b: "real_of_int (y + dy) -
        (real_of_int (el_y (shiftEl dx dy e)) + real_of_int (sizeOr10 e) / 2) =
      real_of_int y - (real_of_int (el_y e) + real_of_int (sizeOr10 e) / 2)"
    by (simp add: shiftEl_def)
  show ?case
    by (simp only: list.map flowerPositionValid.simps sizeOr10_shiftEl Let_def a b Cons.IH)
qed

lemma placementLoop_shift:
  "placementLoop cs cx cy sz (map (shiftEl (cx * cs) (cy * cs)) els) att v (x + cx * cs) (y + cy * cs) rng =
     (case placementLoop cs 0 0 sz els att v x y rng of
        (v', x', y', r') \<Rightarrow> (v', x' + cx * cs, y' + cy * cs, r'))"
proof (induction "50 - att" arbitrary: att v x y rng)
  case 0
  then show ?case by (simp add: placementLoop.simps)
next
  case (Suc n)
  show ?case
  proof (cases "v")
    case True
    then show ?thesis by (simp add: placementLoop.simps)
  next
    case False
    from Suc.hyps(2) have lt: "att < 50" and n: "n = 50 - (att + 1)" by simp_all
    let ?x = "\<lfloor>toDouble (fst (random rng) * real_of_int (cs - sz))\<rfloor>"
    let ?y = "\<lfloor>toDouble (fst (random (snd (random rng))) * real_of_int (cs - sz))\<rfloor>"
    let ?r = "snd (random (snd (random rng)))"
    have l: "placementLoop cs cx cy sz (map (shiftEl (cx * cs) (cy * cs)) els) att v (x + cx * cs) (y + cy * cs) rng
       = placementLoop cs cx cy sz (map (shiftEl (cx * cs) (cy * cs)) els) (att + 1)
           (\<not> checkCollisionWithExistingElements ?x ?y sz els) (?x + cx * cs) (?y + cy * cs) ?r"
      using False lt checkCollision_shift [of ?x "cx * cs" ?y "cy * cs" sz els]
      by (subst placementLoop.simps) (simp add: Let_def add.commute)
    have r: "placementLoop cs 0 0 sz els att v x y rng
       = placementLoop cs 0 0 sz els (att + 1)
           (\<not> checkCollisionWithExistingElements ?x ?y sz els) ?x ?y ?r"
      using False lt by (subst placementLoop.simps) (simp add: Let_def)
    show ?thesis unfolding l r by (rule Suc.hyps(1) [OF n])
  qed
qed

lemma placementLoop_start:
  "placementLoop cs cx cy sz els 0 False x y rng = placementLoop cs cx cy sz els 0 False 0 0 rng"
  by (simp add: placementLoop.simps [of _ _ _ _ _ 0 False])

lemma placementLoop_origin:
  "placementLoop cs cx cy sz (map (shiftEl (cx * cs) (cy * cs)) els) 0 False 0 0 rng =
     (case placementLoop cs 0 0 sz els 0 False 0 0 rng of
        (v', x', y', r') \<Rightarrow> (v', x' + cx * cs, y' + cy * cs, r'))"
  using placementLoop_shift [of cs cx cy sz els 0 False 0 0 rng]
    placementLoop_start [of cs cx cy sz "map (shiftEl (cx * cs) (cy * cs)) els" "0 + cx * cs" "0 + cy * cs" rng]
  by simp

lemma asElement_content:
  "asElement t = shiftEl ox oy (contentElement (treeContentFrom ox oy t))"
  by (simp add: asElement_def shiftEl_def contentElement_def treeContentFrom_def)

lemma map_asElement_content:
  "map asElement ts = map (shiftEl ox oy) (map contentElement (map (treeContentFrom ox oy) ts))"
  by (simp add: asElement_content [of _ ox oy])

lemma treeStep_origin:
  "treeStep cx cy (rng, ts, g) =
     (let cs = gen_chunkSize g;
          sz = 80 + \<lfloor>toDouble (fst (random rng) * 40)\<rfloor>;
          r2 = random (snd (random rng))
      in case placementLoop cs 0 0 sz
                (map contentElement (map (treeContentFrom (cx * cs) (cy * cs)) ts))
                0 False 0 0 (snd r2) of
           (v, x0, y0, rng') \<Rightarrow>
             if v then
               (snd (random (snd (random (snd (random rng'))))),
                ts @ [\<lparr>tree_id = nextTreeId g, tree_x = x0 + cx * cs, tree_y = y0 + cy * cs,
                       tree_size = sz,
                       tree_color =
                         Hsl (toDouble (110 + toDouble (fst (random rng') * 30)))
                             (toDouble (70 + toDouble (fst (random (snd (random rng'))) * 10)))
                             (toDouble (35 + toDouble (fst (random (snd (random (snd (random rng'))))) * 15))),
                       tree_variant = \<lfloor>toDouble (fst r2 * 3)\<rfloor>\<rparr>],
                g\<lparr>nextTreeId := nextTreeId g + 1\<rparr>)
             else (rng', ts, g))"
proof -
  have pl: "placementLoop (gen_chunkSize g) cx cy sz (map asElement ts) 0 False 0 0 r =
      (case placementLoop (gen_chunkSize g) 0 0 sz
              (map contentElement
                 (map (treeContentFrom (cx * gen_chunkSize g) (cy * gen_chunkSize g)) ts))
              0 False 0 0 r of
         (v', x', y', r') \<Rightarrow> (v', x' + cx * gen_chunkSize g, y' + cy * gen_chunkSize g, r'))"
    for sz r
    by (simp only: map_asElement_content [of ts "cx * gen_chunkSize g" "cy * gen_chunkSize g"]
          placementLoop_origin)
  show ?thesis
    by (simp add: treeStep_def Let_def pl split: prod.splits del: map_map)
qed

lemma treeStep_view:
  assumes "treeView cx cy st = treeView cx' cy' st'"
  shows "treeView cx cy (treeStep cx cy st) = treeView cx' cy' (treeStep cx' cy' st')"
proof -
  obtain rng ts g where st: "st = (rng, ts, g)" by (cases st)
  obtain rng' ts' g' where st': "st' = (rng', ts', g')" by (cases st')
  define cs where "cs = gen_chunkSize g"
  define C where "C = map (treeContentFrom (cx * cs) (cy * cs)) ts"
  from assms have "(rng, map (treeContentFrom (cx * gen_chunkSize g) (cy * gen_chunkSize g)) ts,
       gen_chunkSize g) =
      (rng', map (treeContentFrom (cx' * gen_chunkSize g') (cy' * gen_chunkSize g')) ts',
       gen_chunkSize g')"
    by (simp only: treeView_def st st' prod.case)
  then have a1: "rng = rng'" and a3: "gen_chunkSize g = gen_chunkSize g'"
    and a2: "map (treeContentFrom (cx * gen_chunkSize g) (cy * gen_chunkSize g)) ts =
             map (treeContentFrom (cx' * gen_chunkSize g') (cy' * gen_chunkSize g')) ts'"
    by blast+
  have e: "rng' = rng" "gen_chunkSize g' = cs" "gen_chunkSize g = cs"
    "map (treeContentFrom (cx * cs) (cy * cs)) ts = C"
    "map (treeContentFrom (cx' * cs) (cy' * cs)) ts' = C"
    unfolding C_def cs_def using a1 a3 a2 [symmetric, unfolded a3 [symmetric]] by simp_all
  obtain v x0 y0 r' where
    p: "placementLoop cs 0 0 (80 + \<lfloor>toDouble (fst (random rng) * 40)\<rfloor>) (map contentElement C)
          0 False 0 0 (snd (random (snd (random rng)))) = (v, x0, y0, r')"
    by (cases "placementLoop cs 0 0 (80 + \<lfloor>toDouble (fst (random rng) * 40)\<rfloor>) (map contentElement C)
          0 False 0 0 (snd (random (snd (random rng))))") blast
  have n: "treeContentFrom ox oy
         \<lparr>tree_id = i, tree_x = x0 + ox, tree_y = y0 + oy, tree_size = s, tree_color = c,
          tree_variant = w\<rparr> = (x0, y0, s, c, w)" for ox oy i s c w
    by (simp add: treeContentFrom_def)
  have u: "gen_chunkSize (h\<lparr>nextTreeId := k\<rparr>) = gen_chunkSize h" for h k
    by simp
  show ?thesis
    unfolding st st' treeStep_origin Let_def e p prod.case treeView_def
    by (cases v) (simp_all only: if_True if_False prod.case u e map_append list.map n)
qed

lemma treesLoop_view:
  "treeView cx cy st = treeView cx' cy' st' \<Longrightarrow>
   treeView cx cy (treesLoop cx cy n st) = treeView cx' cy' (treesLoop cx' cy' n st')"
proof (induction n arbitrary: st st')
  case 0
  then show ?case by simp
next
  case (Suc n)
  from Suc.IH [OF treeStep_view [OF Suc.prems]] show ?case by simp
qed

lemma bushStep_origin:
  "bushStep cx cy (map (shiftEl (cx * gen_chunkSize g) (cy * gen_chunkSize g)) E0) (rng, bs, g) =
     (let cs = gen_chunkSize g;
          sz = 40 + \<lfloor>toDouble (fst (random rng) * 20)\<rfloor>;
          r2 = random (snd (random rng))
      in case placementLoop cs 0 0 sz
                (E0 @ map contentElement (map (treeContentFrom (cx * cs) (cy * cs)) bs))
                0 False 0 0 (snd r2) of
           (v, x0, y0, rng') \<Rightarrow>
             if v then
               (snd (random (snd (random (snd (random rng'))))),
                bs @ [\<lparr>tree_id = nextBushId g, tree_x = x0 + cx * cs, tree_y = y0 + cy * cs,
                       tree_size = sz,
                       tree_color =
                         Hsl (toDouble (100 + toDouble (fst (random rng') * 50)))
                             (toDouble (65 + toDouble (fst (random (snd (random rng'))) * 15)))
                             (toDouble (30 + toDouble (fst (random (snd (random (snd (random rng'))))) * 15))),
                       tree_variant = \<lfloor>toDouble (fst r2 * 3)\<rfloor>\<rparr>],
                g\<lparr>nextBushId := nextBushId g + 1\<rparr>)
             else (rng', bs, g))"
proof -
  have pl: "placementLoop (gen_chunkSize g) cx cy sz
        (map (shiftEl (cx * gen_chunkSize g) (cy * gen_chunkSize g)) E0 @ map asElement bs)
        0 False 0 0 r =
      (case placementLoop (gen_chunkSize g) 0 0 sz
              (E0 @ map contentElement
                 (map (treeContentFrom (cx * gen_chunkSize g) (cy * gen_chunkSize g)) bs))
              0 False 0 0 r of
         (v', x', y', r') \<Rightarrow> (v', x' + cx * gen_chunkSize g, y' + cy * gen_chunkSize g, r'))"
    for sz r
    by (simp only: map_asElement_content [of bs "cx * gen_chunkSize g" "cy * gen_chunkSize g"]
          placementLoop_origin map_append [symmetric])
  show ?thesis
    by (simp add: bushStep_def Let_def pl split: prod.splits del: map_map map_append)
qed

lemma bushStep_view:
  assumes "treeView cx cy (rng, ts, g) = treeView cx' cy' (rng', ts', g')"
  shows "treeView cx cy
           (bushStep cx cy (map (shiftEl (cx * gen_chunkSize g) (cy * gen_chunkSize g)) E0)
              (rng, ts, g)) =
         treeView cx' cy'
           (bushStep cx' cy' (map (shiftEl (cx' * gen_chunkSize g') (cy' * gen_chunkSize g')) E0)
              (rng', ts', g'))"
proof -
  define cs where "cs = gen_chunkSize g"
  define C where "C = map (treeContentFrom (cx * cs) (cy * cs)) ts"
  from assms have "(rng, map (treeContentFrom (cx * gen_chunkSize g) (cy * gen_chunkSize g)) ts,
       gen_chunkSize g) =
      (rng', map (treeContentFrom (cx' * gen_chunkSize g') (cy' * gen_chunkSize g')) ts',
       gen_chunkSize g')"
    by (simp only: treeView_def prod.case)
  then have a1: "rng = rng'" and a3: "gen_chunkSize g = gen_chunkSize g'"
    and a2: "map (treeContentFrom (cx * gen_chunkSize g) (cy * gen_chunkSize g)) ts =
             map (treeContentFrom (cx' * gen_chunkSize g') (cy' * gen_chunkSize g')) ts'"
    by blast+
  have e: "rng' = rng" "gen_chunkSize g' = cs" "gen_chunkSize g = cs"
    "map (treeContentFrom (cx * cs) (cy * cs)) ts = C"
    "map (treeContentFrom (cx' * cs) (cy' * cs)) ts' = C"
    unfolding C_def cs_def using a1 a3 a2 [symmetric, unfolded a3 [symmetric]] by simp_all
  obtain v x0 y0 r' where
    p: "placementLoop cs 0 0 (40 + \<lfloor>toDouble (fst (random rng) * 20)\<rfloor>) (E0 @ map contentElement C)
          0 False 0 0 (snd (random (snd (random rng)))) = (v, x0, y0, r')"
    by (cases "placementLoop cs 0 0 (40 + \<lfloor>toDouble (fst (random rng) * 20)\<rfloor>) (E0 @ map contentElement C)
          0 False 0 0 (snd (random (snd (random rng))))") blast
  have n: "treeContentFrom ox oy
         \<lparr>tree_id = i, tree_x = x0 + ox, tree_y = y0 + oy, tree_size = s, tree_color = c,
          tree_variant = w\<rparr> = (x0, y0, s, c, w)" for ox oy i s c w
    by (simp add: treeContentFrom_def)
  have u: "gen_chunkSize (h\<lparr>nextBushId := k\<rparr>) = gen_chunkSize h" for h k
    by simp
  show ?thesis
    unfolding bushStep_origin unfolding Let_def e p prod.case treeView_def
    by (cases v) (simp_all only: if_True if_False prod.case u e map_append list.map n)
qed

lemma treeStep_chunkSize: "gen_chunkSize (snd (snd (treeStep cx cy st))) = gen_chunkSize (snd (snd st))"
  by (cases st) (simp add: treeStep_def Let_def split: prod.splits)

lemma bushStep_chunkSize: "gen_chunkSize (snd (snd (bushStep cx cy ex st))) = gen_chunkSize (snd (snd st))"
  by (cases st) (simp add: bushStep_def Let_def split: prod.splits)

lemma treesLoop_chunkSize: "gen_chunkSize (snd (snd (treesLoop cx cy n st))) = gen_chunkSize (snd (snd st))"
  by (induction n arbitrary: st) (simp_all add: treeStep_chunkSize)

lemma bushesLoop_chunkSize: "gen_chunkSize (snd (snd (bushesLoop cx cy ex n st))) = gen_chunkSize (snd (snd st))"
  by (induction n arbitrary: st) (simp_all add: bushStep_chunkSize)

lemma bushesLoop_view:
  "treeView cx cy st = treeView cx' cy' st' \<Longrightarrow> cs = gen_chunkSize (snd (snd st)) \<Longrightarrow>
   treeView cx cy (bushesLoop cx cy (map (shiftEl (cx * cs) (cy * cs)) E0) n st) =
   treeView cx' cy' (bushesLoop cx' cy' (map (shiftEl (cx' * cs) (cy' * cs)) E0) n st')"
proof (induction n arbitrary: st st')
  case 0
  then show ?case by simp
next
  case (Suc n)
  obtain rng ts g where st: "st = (rng, ts, g)" by (cases st)
  obtain rng' ts' g' where st': "st' = (rng', ts', g')" by (cases st')
  from Suc.prems(1) have "gen_chunkSize g' = gen_chunkSize g"
    by (simp add: treeView_def st st')
  with Suc.prems(2) have c: "gen_chunkSize g = cs" "gen_chunkSize g' = cs" by (simp_all add: st)
  have v: "treeView cx cy (bushStep cx cy (map (shiftEl (cx * cs) (cy * cs)) E0) st) =
           treeView cx' cy' (bushStep cx' cy' (map (shiftEl (cx' * cs) (cy' * cs)) E0) st')"
    using bushStep_view [OF Suc.prems(1) [unfolded st st'], of E0] unfolding st st' c .
  have "cs = gen_chunkSize (snd (snd (bushStep cx cy (map (shiftEl (cx * cs) (cy * cs)) E0) st)))"
    using Suc.prems(2) by (simp add: bushStep_chunkSize)
  from Suc.IH [OF v this] show ?case by simp
qed

lemma flowerStep_origin:
  "flowerStep cx cy (map (shiftEl (cx * gen_chunkSize g) (cy * gen_chunkSize g)) E0) (rng, fs, g) =
     (let cs = gen_chunkSize g;
          x0 = \<lfloor>toDouble (fst (random rng) * real_of_int cs)\<rfloor>;
          r2 = random (snd (random rng));
          y0 = \<lfloor>toDouble (fst r2 * real_of_int cs)\<rfloor>;
          r3 = random (snd r2)
      in if flowerPositionValid x0 y0 E0 then
           (snd r3,
            fs @ [\<lparr>flower_id = nextFlowerId g, flower_x = x0 + cx * cs, flower_y = y0 + cy * cs,
                   flower_color = paletteAt \<lfloor>toDouble (fst r3 * real (length flowerColors))\<rfloor>\<rparr>],
            g\<lparr>nextFlowerId := nextFlowerId g + 1\<rparr>)
         else (snd r3, fs, g))"
proof -
  have v: "flowerPositionValid (cx * gen_chunkSize g + x0) (cy * gen_chunkSize g + y0)
             (map (shiftEl (cx * gen_chunkSize g) (cy * gen_chunkSize g)) E0) =
           flowerPositionValid x0 y0 E0" for x0 y0
    using flowerPositionValid_shift [of x0 "cx * gen_chunkSize g" y0 "cy * gen_chunkSize g" E0]
    by (simp only: add.commute)
  show ?thesis
    by (simp add: flowerStep_def Let_def v add.commute del: map_map)
qed

lemma flowerStep_view:
  assumes "flowerView cx cy (rng, fs, g) = flowerView cx' cy' (rng', fs', g')"
  shows "flowerView cx cy
           (flowerStep cx cy (map (shiftEl (cx * gen_chunkSize g) (cy * gen_chunkSize g)) E0)
              (rng, fs, g)) =
         flowerView cx' cy'
           (flowerStep cx' cy' (map (shiftEl (cx' * gen_chunkSize g') (cy' * gen_chunkSize g')) E0)
              (rng', fs', g'))"
proof -
  define cs where "cs = gen_chunkSize g"
  define C where "C = map (flowerContentFrom (cx * cs) (cy * cs)) fs"
  from assms have "(rng, map (flowerContentFrom (cx * gen_chunkSize g) (cy * gen_chunkSize g)) fs,
       gen_chunkSize g) =
      (rng', map (flowerContentFrom (cx' * gen_chunkSize g') (cy' * gen_chunkSize g')) fs',
       gen_chunkSize g')"
    by (simp only: flowerView_def prod.case)
  then have a1: "rng = rng'" and a3: "gen_chunkSize g = gen_chunkSize g'"
    and a2: "map (flowerContentFrom (cx * gen_chunkSize g) (cy * gen_chunkSize g)) fs =
             map (flowerContentFrom (cx' * gen_chunkSize g') (cy' * gen_chunkSize g')) fs'"
    by blast+
  have e: "rng' = rng" "gen_chunkSize g' = cs" "gen_chunkSize g = cs"
    "map (flowerContentFrom (cx * cs) (cy * cs)) fs = C"
    "map (flowerContentFrom (cx' * cs) (cy' * cs)) fs' = C"
    unfolding C_def cs_def using a1 a3 a2 [symmetric, unfolded a3 [symmetric]] by simp_all
  have n: "flowerContentFrom ox oy
         \<lparr>flower_id = i, flower_x = x0 + ox, flower_y = y0 + oy, flower_color = c\<rparr> = (x0, y0, c)"
    for ox oy i x0 y0 c
    by (simp add: flowerContentFrom_def)
  have u: "gen_chunkSize (h\<lparr>nextFlowerId := k\<rparr>) = gen_chunkSize h" for h k
    by simp
  show ?thesis
    unfolding flowerStep_origin unfolding Let_def e prod.case flowerView_def
    by (cases "flowerPositionValid \<lfloor>toDouble (fst (random rng) * real_of_int cs)\<rfloor>
           \<lfloor>toDouble (fst (random (snd (random rng))) * real_of_int cs)\<rfloor> E0")
       (simp_all only: if_True if_False prod.case u e map_append list.map n)
qed

lemma flowerStep_chunkSize:
  "gen_chunkSize (snd (snd (flowerStep cx cy ex st))) = gen_chunkSize (snd (snd st))"
  by (cases st) (simp add: flowerStep_def Let_def)

lemma flowersLoop_chunkSize:
  "gen_chunkSize (snd (snd (flowersLoop cx cy ex n st))) = gen_chunkSize (snd (snd st))"
  by (induction n arbitrary: st) (simp_all add: flowerStep_chunkSize)

lemma flowersLoop_view:
  "flowerView cx cy st = flowerView cx' cy' st' \<Longrightarrow> cs = gen_chunkSize (snd (snd st)) \<Longrightarrow>
   flowerView cx cy (flowersLoop cx cy (map (shiftEl (cx * cs) (cy * cs)) E0) n st) =
   flowerView cx' cy' (flowersLoop cx' cy' (map (shiftEl (cx' * cs) (cy' * cs)) E0) n st')"
proof (induction n arbitrary: st st')
  case 0
  then show ?case by simp
next
  case (Suc n)
  obtain rng fs g where st: "st = (rng, fs, g)" by (cases st)
  obtain rng' fs' g' where st': "st' = (rng', fs', g')" by (cases st')
  from Suc.prems(1) have "gen_chunkSize g' = gen_chunkSize g"
    by (simp add: flowerView_def st st')
  with Suc.prems(2) have c: "gen_chunkSize g = cs" "gen_chunkSize g' = cs" by (simp_all add: st)
  have v: "flowerView cx cy (flowerStep cx cy (map (shiftEl (cx * cs) (cy * cs)) E0) st) =
           flowerView cx' cy' (flowerStep cx' cy' (map (shiftEl (cx' * cs) (cy' * cs)) E0) st')"
    using flowerStep_view [OF Suc.prems(1) [unfolded st st'], of E0] unfolding st st' c .
  have "cs = gen_chunkSize (snd (snd (flowerStep cx cy (map (shiftEl (cx * cs) (cy * cs)) E0) st)))"
    using Suc.prems(2) by (simp add: flowerStep_chunkSize)
  from Suc.IH [OF v this] show ?case by simp
qed

lemma generateTrees_fst:
  "fst (generateTrees g cx cy seed) =
     fst (snd (treesLoop cx cy (treeCount seed) (createSeededRandom seed, [], g)))"
  by (simp add: generateTrees_def split: prod.splits)

lemma generateTrees_snd:
  "snd (generateTrees g cx cy seed) =
     snd (snd (treesLoop cx cy (treeCount seed) (createSeededRandom seed, [], g)))"
  by (simp add: generateTrees_def split: prod.splits)

lemma generateTrees_chunkSize: "gen_chunkSize (snd (generateTrees g cx cy seed)) = gen_chunkSize g"
  by (simp add: generateTrees_snd treesLoop_chunkSize)

lemma generateBushes_fst:
  "fst (generateBushes g cx cy seed ex) =
     fst (snd (bushesLoop cx cy ex (bushCount seed) (createSeededRandom (seed + 1), [], g)))"
  by (simp add: generateBushes_def split: prod.splits)

lemma generateBushes_snd:
  "snd (generateBushes g cx cy seed ex) =
     snd (snd (bushesLoop cx cy ex (bushCount seed) (createSeededRandom (seed + 1), [], g)))"
  by (simp add: generateBushes_def split: prod.splits)

lemma generateBushes_chunkSize:
  "gen_chunkSize (snd (generateBushes g cx cy seed ex)) = gen_chunkSize g"
  by (simp add: generateBushes_snd bushesLoop_chunkSize)

lemma generateFlowers_fst:
  "fst (generateFlowers g cx cy seed ex) =
     fst (snd (flowersLoop cx cy ex (flowerCount seed) (createSeededRandom (seed + 2), [], g)))"
  by (simp add: generateFlowers_def split: prod.splits)

lemma generateFlowers_snd:
  "snd (generateFlowers g cx cy seed ex) =
     snd (snd (flowersLoop cx cy ex (flowerCount seed) (createSeededRandom (seed + 2), [], g)))"
  by (simp add: generateFlowers_def split: prod.splits)

lemma generateFlowers_chunkSize:
  "gen_chunkSize (snd (generateFlowers g cx cy seed ex)) = gen_chunkSize g"
  by (simp add: generateFlowers_snd flowersLoop_chunkSize)

lemma treeView_snd: "fst (snd (treeView cx cy st)) =
    map (treeContentFrom (cx * gen_chunkSize (snd (snd st))) (cy * gen_chunkSize (snd (snd st))))
      (fst (snd st))"
  by (cases st) (simp add: treeView_def)

lemma flowerView_snd: "fst (snd (flowerView cx cy st)) =
    map (flowerContentFrom (cx * gen_chunkSize (snd (snd st))) (cy * gen_chunkSize (snd (snd st))))
      (fst (snd st))"
  by (cases st) (simp add: flowerView_def)

lemma generateTrees_view:
  assumes "gen_chunkSize g = cs" and "gen_chunkSize g' = cs"
  shows "map (treeContentFrom (cx * cs) (cy * cs)) (fst (generateTrees g cx cy seed)) =
         map (treeContentFrom (cx' * cs) (cy' * cs)) (fst (generateTrees g' cx' cy' seed))"
proof -
  have "treeView cx cy (createSeededRandom seed, [], g) =
        treeView cx' cy' (createSeededRandom seed, [], g')"
    by (simp add: treeView_def assms)
  from treesLoop_view [OF this, of "treeCount seed"]
  have "fst (snd (treeView cx cy (treesLoop cx cy (treeCount seed) (createSeededRandom seed, [], g)))) =
        fst (snd (treeView cx' cy' (treesLoop cx' cy' (treeCount seed) (createSeededRandom seed, [], g'))))"
    by simp
  then show ?thesis
    by (simp add: treeView_snd treesLoop_chunkSize generateTrees_fst assms)
qed

lemma generateBushes_view:
  assumes "gen_chunkSize g = cs" and "gen_chunkSize g' = cs"
  shows "map (treeContentFrom (cx * cs) (cy * cs))
           (fst (generateBushes g cx cy seed (map (shiftEl (cx * cs) (cy * cs)) E0))) =
         map (treeContentFrom (cx' * cs) (cy' * cs))
           (fst (generateBushes g' cx' cy' seed (map (shiftEl (cx' * cs) (cy' * cs)) E0)))"
proof -
  have "treeView cx cy (createSeededRandom (seed + 1), [], g) =
        treeView cx' cy' (createSeededRandom (seed + 1), [], g')"
    by (simp add: treeView_def assms)
  from bushesLoop_view [OF this, of cs E0 "bushCount seed"] assms
  have "fst (snd (treeView cx cy (bushesLoop cx cy (map (shiftEl (cx * cs) (cy * cs)) E0)
           (bushCount seed) (createSeededRandom (seed + 1), [], g)))) =
        fst (snd (treeView cx' cy' (bushesLoop cx' cy' (map (shiftEl (cx' * cs) (cy' * cs)) E0)
           (bushCount seed) (createSeededRandom (seed + 1), [], g'))))"
    by simp
  then show ?thesis
    by (simp add: treeView_snd bushesLoop_chunkSize generateBushes_fst assms)
qed

lemma generateFlowers_view:
  assumes "gen_chunkSize g = cs" and "gen_chunkSize g' = cs"
  shows "map (flowerContentFrom (cx * cs) (cy * cs))
           (fst (generateFlowers g cx cy seed (map (shiftEl (cx * cs) (cy * cs)) E0))) =
         map (flowerContentFrom (cx' * cs) (cy' * cs))
           (fst (generateFlowers g' cx' cy' seed (map (shiftEl (cx' * cs) (cy' * cs)) E0)))"
proof -
  have "flowerView cx cy (createSeededRandom (seed + 2), [], g) =
        flowerView cx' cy' (createSeededRandom (seed + 2), [], g')"
    by (simp add: flowerView_def assms)
  from flowersLoop_view [OF this, of cs E0 "flowerCount seed"] assms
  have "fst (snd (flowerView cx cy (flowersLoop cx cy (map (shiftEl (cx * cs) (cy * cs)) E0)
           (flowerCount seed) (createSeededRandom (seed + 2), [], g)))) =
        fst (snd (flowerView cx' cy' (flowersLoop cx' cy' (map (shiftEl (cx' * cs) (cy' * cs)) E0)
           (flowerCount seed) (createSeededRandom (seed + 2), [], g'))))"
    by simp
  then show ?thesis
    by (simp add: flowerView_snd flowersLoop_chunkSize generateFlowers_fst assms)
qed

lemma generateChunk_parts:
  "trees (fst (generateChunk g cx cy)) = fst (generateTrees g cx cy (chunkSeed cx cy))"
  "bushes (fst (generateChunk g cx cy)) =
     fst (generateBushes (snd (generateTrees g cx cy (chunkSeed cx cy))) cx cy (chunkSeed cx cy)
            (map asElement (trees (fst (generateChunk g cx cy)))))"
  "flowers (fst (generateChunk g cx cy)) =
     fst (generateFlowers
            (snd (generateBushes (snd (generateTrees g cx cy (chunkSeed cx cy))) cx cy
                    (chunkSeed cx cy) (map asElement (trees (fst (generateChunk g cx cy))))))
            cx cy (chunkSeed cx cy)
            (map asElement (trees (fst (generateChunk g cx cy))) @
             map asElement (bushes (fst (generateChunk g cx cy)))))"
  by (simp_all add: generateChunk_def Let_def split: prod.splits)

lemma generateChunk_snd:
  "snd (generateChunk g cx cy) =
     snd (generateFlowers
            (snd (generateBushes (snd (generateTrees g cx cy (chunkSeed cx cy))) cx cy
                    (chunkSeed cx cy) (map asElement (trees (fst (generateChunk g cx cy))))))
            cx cy (chunkSeed cx cy)
            (map asElement (trees (fst (generateChunk g cx cy))) @
             map asElement (bushes (fst (generateChunk g cx cy)))))"
  by (simp add: generateChunk_def Let_def split: prod.splits)

lemma generateChunk_chunkSize: "gen_chunkSize (snd (generateChunk g cx cy)) = gen_chunkSize g"
  by (simp only: generateChunk_snd generateFlowers_chunkSize generateBushes_chunkSize
        generateTrees_chunkSize)

lemma generateChunk_view:
  assumes "gen_chunkSize g = cs" and "gen_chunkSize g' = cs"
    and "chunkSeed cx cy = chunkSeed cx' cy'"
  shows "chunkContentFrom (cx * cs) (cy * cs) (fst (generateChunk g cx cy)) =
         chunkContentFrom (cx' * cs) (cy' * cs) (fst (generateChunk g' cx' cy'))"
proof -
  let ?seed = "chunkSeed cx' cy'"
  let ?ch = "fst (generateChunk g cx cy)" and ?ch' = "fst (generateChunk g' cx' cy')"
  define CT where "CT = map (treeContentFrom (cx * cs) (cy * cs)) (trees ?ch)"
  have t: "map (treeContentFrom (cx' * cs) (cy' * cs)) (trees ?ch') = CT"
    unfolding CT_def generateChunk_parts assms(3)
    by (rule generateTrees_view [OF assms(2) assms(1)])
  have et: "map asElement (trees ?ch) = map (shiftEl (cx * cs) (cy * cs)) (map contentElement CT)"
    unfolding CT_def by (rule map_asElement_content)
  have et': "map asElement (trees ?ch') = map (shiftEl (cx' * cs) (cy' * cs)) (map contentElement CT)"
    unfolding t [symmetric] by (rule map_asElement_content)
  define CB where "CB = map (treeContentFrom (cx * cs) (cy * cs)) (bushes ?ch)"
  have g1: "gen_chunkSize (snd (generateTrees g cx cy ?seed)) = cs"
    "gen_chunkSize (snd (generateTrees g' cx' cy' ?seed)) = cs"
    by (simp_all add: generateTrees_chunkSize assms)
  have b: "map (treeContentFrom (cx' * cs) (cy' * cs)) (bushes ?ch') = CB"
    unfolding CB_def generateChunk_parts(2) et et' assms(3)
    by (rule generateBushes_view [OF g1(2) g1(1)])
  have eb: "map asElement (bushes ?ch) = map (shiftEl (cx * cs) (cy * cs)) (map contentElement CB)"
    unfolding CB_def by (rule map_asElement_content)
  have eb': "map asElement (bushes ?ch') = map (shiftEl (cx' * cs) (cy' * cs)) (map contentElement CB)"
    unfolding b [symmetric] by (rule map_asElement_content)
  have g2: "gen_chunkSize (snd (generateBushes (snd (generateTrees g cx cy ?seed)) cx cy ?seed ex)) = cs"
    "gen_chunkSize (snd (generateBushes (snd (generateTrees g' cx' cy' ?seed)) cx' cy' ?seed ex')) = cs"
    for ex ex'
    by (simp_all add: generateBushes_chunkSize g1)
  have f: "map (flowerContentFrom (cx * cs) (cy * cs)) (flowers ?ch) =
           map (flowerContentFrom (cx' * cs) (cy' * cs)) (flowers ?ch')"
    unfolding generateChunk_parts(3) et et' eb eb' assms(3) map_append [symmetric]
    by (rule generateFlowers_view [OF g2])
  show ?thesis
    by (simp add: chunkContentFrom_def t b f CT_def [symmetric] CB_def [symmetric])
qed

section \<open>Determinism\<close>

lemma treeContentFrom_back:
  "treeContentFrom 0 0 t = (case treeContentFrom ox oy t of (x, y, r) \<Rightarrow> (x + ox, y + oy, r))"
  by (simp add: treeContentFrom_def)

lemma flowerContentFrom_back:
  "flowerContentFrom 0 0 f = (case flowerContentFrom ox oy f of (x, y, r) \<Rightarrow> (x + ox, y + oy, r))"
  by (simp add: flowerContentFrom_def)

lemma chunkContentFrom_back:
  "chunkContentFrom 0 0 ch =
     (case chunkContentFrom ox oy ch of
        (ts, bs, fs) \<Rightarrow>
          (map (\<lambda>(x, y, r). (x + ox, y + oy, r)) ts, map (\<lambda>(x, y, r). (x + ox, y + oy, r)) bs,
           map (\<lambda>(x, y, r). (x + ox, y + oy, r)) fs))"
  by (simp add: chunkContentFrom_def treeContentFrom_back [of _ ox oy]
        flowerContentFrom_back [of _ ox oy] comp_def)

text \<open>
  C1. For a fixed chunk coordinate, two calls of \<open>generateChunk\<close> give chunks with the
  same content (positions, sizes, colours and variants of all trees, bushes and flowers, in
  order; identifiers left out), whatever the counters of the generator are at either call:
  for two generators of the same chunk size, and for one generator before and after it has
  generated any other chunk.
\<close>

theorem generateChunk_deterministic:
  "(gen_chunkSize g' = gen_chunkSize g \<longrightarrow>
      chunkContent (fst (generateChunk g' cx cy)) = chunkContent (fst (generateChunk g cx cy))) \<and>
   chunkContent (fst (generateChunk (snd (generateChunk g a b)) cx cy)) =
     chunkContent (fst (generateChunk g cx cy))"
proof -
  have d: "chunkContent (fst (generateChunk h' cx cy)) = chunkContent (fst (generateChunk h cx cy))"
    if "gen_chunkSize h' = gen_chunkSize h" for h h'
    unfolding chunkContent_def
      chunkContentFrom_back [of _ "cx * gen_chunkSize h" "cy * gen_chunkSize h"]
    by (simp only: generateChunk_view [OF that refl refl, of cx cy])
  from d [of g' g] d [of "snd (generateChunk g a b)" g] show ?thesis
    by (simp add: generateChunk_chunkSize)
qed

theorem generateChunk_deterministic_witness:
  "gen_chunkSize (newChunkGenerator 100 100 500) = gen_chunkSize (newChunkGenerator 5000 5000 500) \<and>
   chunkContent (fst (generateChunk (newChunkGenerator 100 100 500) 3 4)) =
     chunkContent (fst (generateChunk (newChunkGenerator 5000 5000 500) 3 4)) \<and>
   chunkContent (fst (generateChunk (snd (generateChunk (newChunkGenerator 5000 5000 500) 0 0)) 3 4)) =
     chunkContent (fst (generateChunk (newChunkGenerator 5000 5000 500) 3 4))"
  using generateChunk_deterministic
    [of "newChunkGenerator 100 100 500" "newChunkGenerator 5000 5000 500" 3 4 0 0]
  by (simp add: newChunkGenerator_def)

section \<open>Coordinates with the same seed\<close>

lemma treeCount_pos: "0 < treeCount seed"
proof -
  have "0 \<le> sin (real_of_int seed) + 1"
    using sin_ge_minus_one [of "real_of_int seed"] by linarith
  then have "0 \<le> (sin (real_of_int seed) + 1) * 5" by simp
  then have "0 \<le> \<lfloor>(sin (real_of_int seed) + 1) * 5\<rfloor>" by (simp only: zero_le_floor)
  then show ?thesis by (simp add: treeCount_def)
qed

lemma placementLoop_empty:
  "\<exists>x y r. placementLoop cs cx cy sz [] 0 False x0 y0 rng = (True, x, y, r)"
  by (subst placementLoop.simps) (simp add: Let_def placementLoop.simps [of _ _ _ _ _ _ True])

lemma treeStep_first: "fst (snd (treeStep cx cy (rng, [], g))) \<noteq> []"
proof -
  obtain x y r where
    "placementLoop (gen_chunkSize g) cx cy (80 + \<lfloor>toDouble (fst (random rng) * 40)\<rfloor>) [] 0 False 0 0
       (snd (random (snd (random rng)))) = (True, x, y, r)"
    using placementLoop_empty by blast
  then show ?thesis by (simp add: treeStep_def Let_def)
qed

lemma treeStep_grows: "fst (snd st) \<noteq> [] \<Longrightarrow> fst (snd (treeStep cx cy st)) \<noteq> []"
  by (cases st) (simp add: treeStep_def Let_def split: prod.splits)

lemma treesLoop_grows: "fst (snd st) \<noteq> [] \<Longrightarrow> fst (snd (treesLoop cx cy n st)) \<noteq> []"
  by (induction n arbitrary: st) (simp_all add: treeStep_grows)

lemma generateChunk_has_tree: "trees (fst (generateChunk g cx cy)) \<noteq> []"
proof -
  obtain n where n: "treeCount (chunkSeed cx cy) = Suc n"
    using treeCount_pos [of "chunkSeed cx cy"] by (cases "treeCount (chunkSeed cx cy)") auto
  show ?thesis
    by (simp add: generateChunk_parts generateTrees_fst n treesLoop_grows treeStep_first)
qed

text \<open>
  C5, as amended. The seed is \<open>chunkX * 10000 + chunkY\<close>, so distinct coordinates such
  as (0, 10000) and (1, 0) have the same seed; two chunks with the same seed, generated with
  the same chunk size, have the same sizes, colours and variants and the same positions
  relative to their chunk origins (the coordinate times the chunk size).
\<close>

theorem aliased_chunks_relative_content:
  "chunkSeed 0 10000 = chunkSeed 1 0 \<and> (0::int, 10000::int) \<noteq> (1, 0) \<and>
   (chunkSeed cx cy = chunkSeed cx' cy' \<and> gen_chunkSize g = cs \<and> gen_chunkSize g' = cs \<longrightarrow>
      chunkContentFrom (cx * cs) (cy * cs) (fst (generateChunk g cx cy)) =
      chunkContentFrom (cx' * cs) (cy' * cs) (fst (generateChunk g' cx' cy')))"
  using generateChunk_view [of g cs g' cx cy cx' cy'] by (simp add: chunkSeed_def)

theorem aliased_chunks_relative_content_witness:
  "chunkSeed 0 10000 = chunkSeed 1 0 \<and>
   gen_chunkSize (newChunkGenerator 5000 5000 500) = 500 \<and>
   chunkContentFrom 0 5000000 (fst (generateChunk (newChunkGenerator 5000 5000 500) 0 10000)) =
   chunkContentFrom 500 0 (fst (generateChunk (newChunkGenerator 5000 5000 500) 1 0))"
  using aliased_chunks_relative_content
    [of 0 10000 1 0 "newChunkGenerator 5000 5000 500" 500 "newChunkGenerator 5000 5000 500"]
  by (simp add: newChunkGenerator_def chunkSeed_def)

text \<open>
  C5 as stated fails: the stored positions include the chunk origin, and every chunk has a
  tree, so the chunks (0, 10000) and (1, 0) do not have identical entity positions.
\<close>

theorem aliased_chunks_differ_in_position:
  "chunkSeed 0 10000 = chunkSeed 1 0 \<and>
   chunkContent (fst (generateChunk (newChunkGenerator 5000 5000 500) 0 10000)) \<noteq>
   chunkContent (fst (generateChunk (newChunkGenerator 5000 5000 500) 1 0))"
proof -
  let ?g = "newChunkGenerator 5000 5000 500"
  let ?ts = "trees (fst (generateChunk ?g 0 10000))" and ?ts' = "trees (fst (generateChunk ?g 1 0))"
  have s: "chunkSeed 0 10000 = chunkSeed 1 0" by (simp add: chunkSeed_def)
  have cs: "gen_chunkSize ?g = 500" by (simp add: newChunkGenerator_def)
  from generateChunk_view [OF cs cs s]
  have rel: "map (treeContentFrom 0 5000000) ?ts = map (treeContentFrom 500 0) ?ts'"
    by (simp add: chunkContentFrom_def)
  have ne: "?ts \<noteq> []" by (rule generateChunk_has_tree)
  have "map (treeContentFrom 0 0) ?ts \<noteq> map (treeContentFrom 0 0) ?ts'"
  proof
    assume abs: "map (treeContentFrom 0 0) ?ts = map (treeContentFrom 0 0) ?ts'"
    from ne obtain t r where t: "?ts = t # r" by (cases ?ts) auto
    with rel obtain t' r' where t': "?ts' = t' # r'" by (cases ?ts') auto
    from rel abs show False
      unfolding t t' by (simp add: treeContentFrom_def)
  qed
  then show ?thesis by (simp add: s chunkContent_def chunkContentFrom_def)
qed

section \<open>Inside the range of exact generation\<close>

text \<open>
  What \<open>exactRange\<close> gives: the first product of each of the three streams is at most
  \<open>2^53\<close> in absolute value; every tree and bush of the chunk has a size from 20 to 119
  and a position that, doubled and moved by the size, is below \<open>2^48\<close>, so that its
  centre is a half integer that a double holds exactly; every flower has a position below
  \<open>2^47\<close>. The same bounds hold of the candidates that the placement loop rejects.
\<close>

lemma exactRange_seed:
  assumes "exactRange g cx cy" and "0 \<le> i" and "i \<le> 2"
  shows "\<bar>(chunkSeed cx cy + i) * 9301 + 49297\<bar> \<le> 2 ^ 53"
proof -
  from assms(1) have "\<bar>cx\<bar> \<le> 67108864" "\<bar>cy\<bar> \<le> 67108864"
    by (simp_all add: exactRange_def)
  then have "- 671155748866 \<le> chunkSeed cx cy + i \<and> chunkSeed cx cy + i \<le> 671155748866"
    using assms(2,3) unfolding chunkSeed_def by linarith
  then show ?thesis by (simp add: abs_le_iff)
qed

lemma random_offset_bound: "\<bar>\<lfloor>toDouble (fst (random rng) * real_of_int k)\<rfloor>\<bar> \<le> \<bar>k\<bar>"
  using floor_random_range [of k rng] by linarith

lemma floor_random_pos:
  "0 < k \<Longrightarrow>
     - k \<le> \<lfloor>toDouble (fst (random rng) * real_of_int k)\<rfloor> \<and>
     \<lfloor>toDouble (fst (random rng) * real_of_int k)\<rfloor> < k"
  using floor_random_range [of k rng] by linarith

lemma tree_size_range:
  "40 \<le> 80 + \<lfloor>toDouble (fst (random rng) * 40)\<rfloor> \<and>
   80 + \<lfloor>toDouble (fst (random rng) * 40)\<rfloor> \<le> 119"
  using floor_random_pos [of 40 rng, OF zero_less_numeral] unfolding of_int_numeral by linarith

lemma bush_size_range:
  "20 \<le> 40 + \<lfloor>toDouble (fst (random rng) * 20)\<rfloor> \<and>
   40 + \<lfloor>toDouble (fst (random rng) * 20)\<rfloor> \<le> 59"
  using floor_random_pos [of 20 rng, OF zero_less_numeral] unfolding of_int_numeral by linarith

lemma placementLoop_near:
  "placementLoop cs cx cy sz els att v x y rng = (True, x', y', r') \<Longrightarrow>
   0 \<le> sz \<Longrightarrow>
   (v \<longrightarrow> \<bar>x - cx * cs\<bar> \<le> \<bar>cs\<bar> + sz \<and> \<bar>y - cy * cs\<bar> \<le> \<bar>cs\<bar> + sz) \<Longrightarrow>
   \<bar>x' - cx * cs\<bar> \<le> \<bar>cs\<bar> + sz \<and> \<bar>y' - cy * cs\<bar> \<le> \<bar>cs\<bar> + sz"
proof (induction "50 - att" arbitrary: att v x y rng)
  case 0
  then show ?case by (simp add: placementLoop.simps split: if_splits)
next
  case (Suc n)
  show ?case
  proof (cases "\<not> v \<and> att < 50")
    case False
    with Suc.prems show ?thesis by (simp add: placementLoop.simps split: if_splits)
  next
    case True
    from Suc.hyps(2) have n: "n = 50 - (att + 1)" by simp
    let ?x = "cx * cs + \<lfloor>toDouble (fst (random rng) * real_of_int (cs - sz))\<rfloor>"
    let ?y = "cy * cs + \<lfloor>toDouble (fst (random (snd (random rng))) * real_of_int (cs - sz))\<rfloor>"
    from Suc.prems(1) True
    have p: "placementLoop cs cx cy sz els (att + 1)
            (\<not> checkCollisionWithExistingElements ?x ?y sz els) ?x ?y
            (snd (random (snd (random rng)))) = (True, x', y', r')"
      by (subst (asm) placementLoop.simps) (simp add: Let_def)
    have "\<bar>cs - sz\<bar> \<le> \<bar>cs\<bar> + sz" using Suc.prems(2) by linarith
    with random_offset_bound [of rng "cs - sz"]
      random_offset_bound [of "snd (random rng)" "cs - sz"]
    have "\<bar>?x - cx * cs\<bar> \<le> \<bar>cs\<bar> + sz \<and> \<bar>?y - cy * cs\<bar> \<le> \<bar>cs\<bar> + sz"
      by simp
    with Suc.hyps(1) [OF n p Suc.prems(2)] show ?thesis by simp
  qed
qed

lemma treeStep_near:
  assumes "\<forall>t \<in> set (fst (snd st)). nearOrigin (gen_chunkSize (snd (snd st))) cx cy t"
  shows "\<forall>t \<in> set (fst (snd (treeStep cx cy st))). nearOrigin (gen_chunkSize (snd (snd st))) cx cy t"
proof -
  obtain rng ts g where st: "st = (rng, ts, g)" by (cases st)
  let ?sz = "80 + \<lfloor>toDouble (fst (random rng) * 40)\<rfloor>"
  obtain v x y r' where
    p: "placementLoop (gen_chunkSize g) cx cy ?sz (map asElement ts) 0 False 0 0
          (snd (random (snd (random rng)))) = (v, x, y, r')"
    by (cases "placementLoop (gen_chunkSize g) cx cy ?sz (map asElement ts) 0 False 0 0
          (snd (random (snd (random rng))))") blast
  show ?thesis
  proof (cases v)
    case False
    with p assms show ?thesis by (simp add: st treeStep_def Let_def)
  next
    case True
    define nt where "nt = \<lparr>tree_id = nextTreeId g, tree_x = x, tree_y = y, tree_size = ?sz,
        tree_color = Hsl (toDouble (110 + toDouble (fst (random r') * 30)))
                         (toDouble (70 + toDouble (fst (random (snd (random r'))) * 10)))
                         (toDouble (35 + toDouble (fst (random (snd (random (snd (random r'))))) * 15))),
        tree_variant = \<lfloor>toDouble (fst (random (snd (random rng))) * 3)\<rfloor>\<rparr>"
    have res: "fst (snd (treeStep cx cy st)) = ts @ [nt]"
      using p True by (simp add: st treeStep_def Let_def nt_def)
    from p True have p': "placementLoop (gen_chunkSize g) cx cy ?sz (map asElement ts) 0 False 0 0
          (snd (random (snd (random rng)))) = (True, x, y, r')"
      by simp
    have sz: "40 \<le> ?sz \<and> ?sz \<le> 119" by (rule tree_size_range)
    then have "0 \<le> ?sz" by linarith
    from placementLoop_near [OF p' this]
    have "\<bar>x - cx * gen_chunkSize g\<bar> \<le> \<bar>gen_chunkSize g\<bar> + ?sz \<and>
          \<bar>y - cy * gen_chunkSize g\<bar> \<le> \<bar>gen_chunkSize g\<bar> + ?sz"
      by simp
    with sz have "nearOrigin (gen_chunkSize g) cx cy nt"
      unfolding nearOrigin_def nt_def by simp linarith
    with assms show ?thesis unfolding res by (simp add: st)
  qed
qed

lemma treesLoop_near:
  "\<forall>t \<in> set (fst (snd st)). nearOrigin (gen_chunkSize (snd (snd st))) cx cy t \<Longrightarrow>
   \<forall>t \<in> set (fst (snd (treesLoop cx cy n st))). nearOrigin (gen_chunkSize (snd (snd st))) cx cy t"
proof (induction n arbitrary: st)
  case 0
  then show ?case by simp
next
  case (Suc n)
  from treeStep_near [OF Suc.prems]
  have "\<forall>t \<in> set (fst (snd (treeStep cx cy st))).
          nearOrigin (gen_chunkSize (snd (snd (treeStep cx cy st)))) cx cy t"
    by (simp only: treeStep_chunkSize)
  from Suc.IH [OF this] show ?case by (simp add: treeStep_chunkSize)
qed

lemma bushStep_near:
  assumes "\<forall>t \<in> set (fst (snd st)). nearOrigin (gen_chunkSize (snd (snd st))) cx cy t"
  shows "\<forall>t \<in> set (fst (snd (bushStep cx cy ex st))). nearOrigin (gen_chunkSize (snd (snd st))) cx cy t"
proof -
  obtain rng bs g where st: "st = (rng, bs, g)" by (cases st)
  let ?sz = "40 + \<lfloor>toDouble (fst (random rng) * 20)\<rfloor>"
  obtain v x y r' where
    p: "placementLoop (gen_chunkSize g) cx cy ?sz (ex @ map asElement bs) 0 False 0 0
          (snd (random (snd (random rng)))) = (v, x, y, r')"
    by (cases "placementLoop (gen_chunkSize g) cx cy ?sz (ex @ map asElement bs) 0 False 0 0
          (snd (random (snd (random rng))))") blast
  show ?thesis
  proof (cases v)
    case False
    with p assms show ?thesis by (simp add: st bushStep_def Let_def)
  next
    case True
    define nb where "nb = \<lparr>tree_id = nextBushId g, tree_x = x, tree_y = y, tree_size = ?sz,
        tree_color = Hsl (toDouble (100 + toDouble (fst (random r') * 50)))
                         (toDouble (65 + toDouble (fst (random (snd (random r'))) * 15)))
                         (toDouble (30 + toDouble (fst (random (snd (random (snd (random r'))))) * 15))),
        tree_variant = \<lfloor>toDouble (fst (random (snd (random rng))) * 3)\<rfloor>\<rparr>"
    have res: "fst (snd (bushStep cx cy ex st)) = bs @ [nb]"
      using p True by (simp add: st bushStep_def Let_def nb_def)
    from p True have p': "placementLoop (gen_chunkSize g) cx cy ?sz (ex @ map asElement bs) 0 False 0 0
          (snd (random (snd (random rng)))) = (True, x, y, r')"
      by simp
    have sz: "20 \<le> ?sz \<and> ?sz \<le> 59" by (rule bush_size_range)
    then have "0 \<le> ?sz" by linarith
    from placementLoop_near [OF p' this]
    have "\<bar>x - cx * gen_chunkSize g\<bar> \<le> \<bar>gen_chunkSize g\<bar> + ?sz \<and>
          \<bar>y - cy * gen_chunkSize g\<bar> \<le> \<bar>gen_chunkSize g\<bar> + ?sz"
      by simp
    with sz have "nearOrigin (gen_chunkSize g) cx cy nb"
      unfolding nearOrigin_def nb_def by simp linarith
    with assms show ?thesis unfolding res by (simp add: st)
  qed
qed

lemma bushesLoop_near:
  "\<forall>t \<in> set (fst (snd st)). nearOrigin (gen_chunkSize (snd (snd st))) cx cy t \<Longrightarrow>
   \<forall>t \<in> set (fst (snd (bushesLoop cx cy ex n st))). nearOrigin (gen_chunkSize (snd (snd st))) cx cy t"
proof (induction n arbitrary: st)
  case 0
  then show ?case by simp
next
  case (Suc n)
  from bushStep_near [OF Suc.prems]
  have "\<forall>t \<in> set (fst (snd (bushStep cx cy ex st))).
          nearOrigin (gen_chunkSize (snd (snd (bushStep cx cy ex st)))) cx cy t"
    by (simp only: bushStep_chunkSize)
  from Suc.IH [OF this] show ?case by (simp add: bushStep_chunkSize)
qed

lemma flowerStep_near:
  assumes "\<forall>f \<in> set (fst (snd st)).
      \<bar>flower_x f - cx * gen_chunkSize (snd (snd st))\<bar> \<le> \<bar>gen_chunkSize (snd (snd st))\<bar> \<and>
      \<bar>flower_y f - cy * gen_chunkSize (snd (snd st))\<bar> \<le> \<bar>gen_chunkSize (snd (snd st))\<bar>"
  shows "\<forall>f \<in> set (fst (snd (flowerStep cx cy ex st))).
      \<bar>flower_x f - cx * gen_chunkSize (snd (snd st))\<bar> \<le> \<bar>gen_chunkSize (snd (snd st))\<bar> \<and>
      \<bar>flower_y f - cy * gen_chunkSize (snd (snd st))\<bar> \<le> \<bar>gen_chunkSize (snd (snd st))\<bar>"
proof -
  obtain rng fs g where st: "st = (rng, fs, g)" by (cases st)
  from assms random_offset_bound [of rng "gen_chunkSize g"]
    random_offset_bound [of "snd (random rng)" "gen_chunkSize g"]
  show ?thesis by (simp add: st flowerStep_def Let_def)
qed

lemma flowersLoop_near:
  "\<forall>f \<in> set (fst (snd st)).
      \<bar>flower_x f - cx * gen_chunkSize (snd (snd st))\<bar> \<le> \<bar>gen_chunkSize (snd (snd st))\<bar> \<and>
      \<bar>flower_y f - cy * gen_chunkSize (snd (snd st))\<bar> \<le> \<bar>gen_chunkSize (snd (snd st))\<bar> \<Longrightarrow>
   \<forall>f \<in> set (fst (snd (flowersLoop cx cy ex n st))).
      \<bar>flower_x f - cx * gen_chunkSize (snd (snd st))\<bar> \<le> \<bar>gen_chunkSize (snd (snd st))\<bar> \<and>
      \<bar>flower_y f - cy * gen_chunkSize (snd (snd st))\<bar> \<le> \<bar>gen_chunkSize (snd (snd st))\<bar>"
proof (induction n arbitrary: st)
  case 0
  then show ?case by simp
next
  case (Suc n)
  from flowerStep_near [OF Suc.prems]
  have "\<forall>f \<in> set (fst (snd (flowerStep cx cy ex st))).
      \<bar>flower_x f - cx * gen_chunkSize (snd (snd (flowerStep cx cy ex st)))\<bar>
         \<le> \<bar>gen_chunkSize (snd (snd (flowerStep cx cy ex st)))\<bar> \<and>
      \<bar>flower_y f - cy * gen_chunkSize (snd (snd (flowerStep cx cy ex st)))\<bar>
         \<le> \<bar>gen_chunkSize (snd (snd (flowerStep cx cy ex st)))\<bar>"
    by (simp only: flowerStep_chunkSize)
  from Suc.IH [OF this] show ?case by (simp add: flowerStep_chunkSize)
qed

lemma origin_bound:
  assumes "exactRange g cx cy"
  shows "\<bar>cx * gen_chunkSize g\<bar> \<le> 2 ^ 46" "\<bar>cy * gen_chunkSize g\<bar> \<le> 2 ^ 46"
proof -
  from assms have c: "\<bar>gen_chunkSize g\<bar> \<le> 2 ^ 20" "\<bar>cx\<bar> \<le> 2 ^ 26" "\<bar>cy\<bar> \<le> 2 ^ 26"
    by (simp_all add: exactRange_def)
  have "\<bar>cx\<bar> * \<bar>gen_chunkSize g\<bar> \<le> 2 ^ 26 * 2 ^ 20"
    by (rule mult_mono [OF c(2) c(1)]) simp_all
  then show "\<bar>cx * gen_chunkSize g\<bar> \<le> 2 ^ 46" by (simp add: abs_mult)
  have "\<bar>cy\<bar> * \<bar>gen_chunkSize g\<bar> \<le> 2 ^ 26 * 2 ^ 20"
    by (rule mult_mono [OF c(3) c(1)]) simp_all
  then show "\<bar>cy * gen_chunkSize g\<bar> \<le> 2 ^ 46" by (simp add: abs_mult)
qed

lemma generateChunk_near:
  "\<forall>t \<in> set (trees (fst (generateChunk g cx cy))). nearOrigin (gen_chunkSize g) cx cy t"
  "\<forall>t \<in> set (bushes (fst (generateChunk g cx cy))). nearOrigin (gen_chunkSize g) cx cy t"
  "\<forall>f \<in> set (flowers (fst (generateChunk g cx cy))).
      \<bar>flower_x f - cx * gen_chunkSize g\<bar> \<le> \<bar>gen_chunkSize g\<bar> \<and>
      \<bar>flower_y f - cy * gen_chunkSize g\<bar> \<le> \<bar>gen_chunkSize g\<bar>"
proof -
  show "\<forall>t \<in> set (trees (fst (generateChunk g cx cy))). nearOrigin (gen_chunkSize g) cx cy t"
    unfolding generateChunk_parts generateTrees_fst
    using treesLoop_near [of "(createSeededRandom (chunkSeed cx cy), [], g)" cx cy] by simp
  show "\<forall>t \<in> set (bushes (fst (generateChunk g cx cy))). nearOrigin (gen_chunkSize g) cx cy t"
    unfolding generateChunk_parts(2) generateBushes_fst
    using bushesLoop_near [of "(createSeededRandom (chunkSeed cx cy + 1), [],
        snd (generateTrees g cx cy (chunkSeed cx cy)))" cx cy]
    by (simp add: generateTrees_chunkSize)
  show "\<forall>f \<in> set (flowers (fst (generateChunk g cx cy))).
      \<bar>flower_x f - cx * gen_chunkSize g\<bar> \<le> \<bar>gen_chunkSize g\<bar> \<and>
      \<bar>flower_y f - cy * gen_chunkSize g\<bar> \<le> \<bar>gen_chunkSize g\<bar>"
    unfolding generateChunk_parts(3) generateFlowers_fst
    using flowersLoop_near [of "(createSeededRandom (chunkSeed cx cy + 2), [],
        snd (generateBushes (snd (generateTrees g cx cy (chunkSeed cx cy))) cx cy
                    (chunkSeed cx cy) (map asElement (trees (fst (generateChunk g cx cy))))))" cx cy]
    by (simp add: generateTrees_chunkSize generateBushes_chunkSize)
qed

lemma exactRange_positions:
  assumes "exactRange g cx cy"
  shows "\<forall>t \<in> set (trees (fst (generateChunk g cx cy))) \<union> set (bushes (fst (generateChunk g cx cy))).
           20 \<le> tree_size t \<and> tree_size t \<le> 119 \<and>
           \<bar>2 * tree_x t + tree_size t\<bar> < 2 ^ 48 \<and> \<bar>2 * tree_y t + tree_size t\<bar> < 2 ^ 48"
    and "\<forall>f \<in> set (flowers (fst (generateChunk g cx cy))).
           \<bar>flower_x f\<bar> < 2 ^ 47 \<and> \<bar>flower_y f\<bar> < 2 ^ 47"
proof -
  from assms have c: "\<bar>gen_chunkSize g\<bar> \<le> 1048576" by (simp add: exactRange_def)
  from origin_bound [OF assms]
  have o: "\<bar>cx * gen_chunkSize g\<bar> \<le> 70368744177664" "\<bar>cy * gen_chunkSize g\<bar> \<le> 70368744177664"
    by simp_all
  have "20 \<le> tree_size t \<and> tree_size t \<le> 119 \<and>
        \<bar>2 * tree_x t + tree_size t\<bar> < 2 ^ 48 \<and> \<bar>2 * tree_y t + tree_size t\<bar> < 2 ^ 48"
    if "nearOrigin (gen_chunkSize g) cx cy t" for t
    using that c o unfolding nearOrigin_def by simp linarith
  with generateChunk_near(1,2) [of g cx cy]
  show "\<forall>t \<in> set (trees (fst (generateChunk g cx cy))) \<union> set (bushes (fst (generateChunk g cx cy))).
           20 \<le> tree_size t \<and> tree_size t \<le> 119 \<and>
           \<bar>2 * tree_x t + tree_size t\<bar> < 2 ^ 48 \<and> \<bar>2 * tree_y t + tree_size t\<bar> < 2 ^ 48"
    by blast
  have "\<bar>flower_x f\<bar> < 2 ^ 47 \<and> \<bar>flower_y f\<bar> < 2 ^ 47"
    if "\<bar>flower_x f - cx * gen_chunkSize g\<bar> \<le> \<bar>gen_chunkSize g\<bar> \<and>
        \<bar>flower_y f - cy * gen_chunkSize g\<bar> \<le> \<bar>gen_chunkSize g\<bar>" for f
    using that c o by simp linarith
  with generateChunk_near(3) [of g cx cy]
  show "\<forall>f \<in> set (flowers (fst (generateChunk g cx cy))).
           \<bar>flower_x f\<bar> < 2 ^ 47 \<and> \<bar>flower_y f\<bar> < 2 ^ 47"
    by blast
qed

section \<open>The collision invariant\<close>
















section \<open>Flowers\<close>





section \<open>Chunk (0, 0), evaluated\<close>

lemma sqrt_less_iff: "0 \<le> a \<Longrightarrow> (sqrt a < t) = (0 < t \<and> a < t\<^sup>2)"
  by (metis abs_of_nonneg less_eq_real_def not_less real_sqrt_abs real_sqrt_less_iff
        order.strict_trans2 zero_eq_power2)

lemma shiftTo_bounds:
  "0 < a \<Longrightarrow> a < b \<Longrightarrow> b \<le> a * 2 ^ shiftTo a b \<and> a * 2 ^ shiftTo a b < 2 * b"
proof (induction a b rule: shiftTo.induct)
  case (1 a b)
  show ?case
  proof (cases "2 * a < b")
    case True
    with 1 have "b \<le> 2 * a * 2 ^ shiftTo (2 * a) b \<and> 2 * a * 2 ^ shiftTo (2 * a) b < 2 * b"
      by simp
    moreover have "shiftTo a b = Suc (shiftTo (2 * a) b)"
      using 1(2,3) by (subst shiftTo.simps) simp
    ultimately show ?thesis by (simp add: mult.assoc mult.left_commute)
  next
    case False
    have "shiftTo (2 * a) b = 0" using False 1(2) by (subst shiftTo.simps) simp
    moreover have "shiftTo a b = Suc (shiftTo (2 * a) b)"
      using 1(2,3) by (subst shiftTo.simps) simp
    ultimately show ?thesis using False 1(2,3) by simp
  qed
qed

lemma toDouble_quotient:
  assumes b: "0 < b" and a: "a \<noteq> 0"
    and lo: "b \<le> \<bar>a\<bar> * 2 ^ j" and hi: "\<bar>a\<bar> * 2 ^ j < 2 * b"
  shows "toDouble (real_of_int a / real_of_int b) =
         real_of_int (roundEvenDiv (a * 2 ^ (52 + j)) b) / 2 ^ (52 + j)"
proof -
  let ?x = "real_of_int a / real_of_int b"
  have nz: "?x \<noteq> 0" using a b by simp
  have ax: "\<bar>?x\<bar> = real_of_int \<bar>a\<bar> / real_of_int b" using b by simp
  have "real_of_int b \<le> real_of_int (\<bar>a\<bar> * 2 ^ j)" using lo by (simp only: of_int_le_iff)
  then have 1: "2 powr real_of_int (- int j) \<le> \<bar>?x\<bar>"
    using b unfolding ax powr_neg_nat by (simp add: field_simps)
  have "real_of_int (\<bar>a\<bar> * 2 ^ j) < real_of_int (2 * b)" using hi by (simp only: of_int_less_iff)
  then have "real_of_int \<bar>a\<bar> / real_of_int b < 2 * (1 / 2 ^ j)"
    using b by (simp add: field_simps)
  also have "2 * (1 / 2 ^ j) = 2 powr (real_of_int (- int j) + 1)"
    by (simp add: powr_diff powr_realpow)
  finally have 2: "\<bar>?x\<bar> < 2 powr (real_of_int (- int j) + 1)" unfolding ax .
  have L: "\<lfloor>log 2 \<bar>?x\<bar>\<rfloor> = - int j"
    using floor_log_eq_powr_iff [of "\<bar>?x\<bar>" 2 "- int j"] nz 1 2 by simp
  have e: "- int j - 52 = - int (52 + j)" by simp
  have "?x / (1 / 2 ^ (52 + j)) = real_of_int (a * 2 ^ (52 + j)) / real_of_int b"
    by simp
  then have "roundEven (?x / (1 / 2 ^ (52 + j))) = roundEvenDiv (a * 2 ^ (52 + j)) b"
    by (simp only: roundEven_quotient [OF b])
  then show ?thesis
    using nz unfolding toDouble_def Let_def L e powr_neg_nat by simp
qed

lemma random_snd: "snd (random s) = jsRem (s * 9301 + 49297) 233280"
  by (simp add: random_def Let_def)

lemma half_sq: "((a::real) / 2)\<^sup>2 = a\<^sup>2 / 4"
  by (simp add: power2_eq_square)

lemma half_squares_less:
  "(real_of_int X / 2)\<^sup>2 + (real_of_int Y / 2)\<^sup>2 < (real_of_int T / 2)\<^sup>2 \<longleftrightarrow>
     X\<^sup>2 + Y\<^sup>2 < T\<^sup>2"
proof -
  have "(real_of_int X / 2)\<^sup>2 + (real_of_int Y / 2)\<^sup>2 < (real_of_int T / 2)\<^sup>2 \<longleftrightarrow>
      real_of_int (X\<^sup>2 + Y\<^sup>2) < real_of_int (T\<^sup>2)"
    by (simp add: half_sq)
  then show ?thesis by (simp only: of_int_less_iff)
qed

declare toDouble_def [code del]

lemma rnd_code [code]: "rnd s = jsRem (s * 9301 + 49297) 233280"
  by (simp add: rnd_def random_snd)

lemma rfloor_code [code]:
  "rfloor s k =
     (let s' = rnd s
      in if s' = 0 then 0
         else (let sc = 52 + shiftTo \<bar>s'\<bar> 233280
               in round53 (roundEvenDiv (s' * 2 ^ sc) 233280 * k) div 2 ^ sc))"
proof (cases "rnd s = 0")
  case True
  then show ?thesis by (simp add: rfloor_def random_fst rnd_def)
next
  case False
  define s' where "s' = rnd s"
  define j where "j = shiftTo \<bar>s'\<bar> 233280"
  define m where "m = roundEvenDiv (s' * 2 ^ (52 + j)) 233280"
  from False have nz: "s' \<noteq> 0" by (simp add: s'_def)
  from random_state_bounds [of s] have "\<bar>s'\<bar> < 233280"
    by (simp add: s'_def rnd_def abs_less_iff)
  with nz shiftTo_bounds [of "\<bar>s'\<bar>" 233280]
  have b: "233280 \<le> \<bar>s'\<bar> * 2 ^ j" "\<bar>s'\<bar> * 2 ^ j < 2 * 233280"
    by (simp_all add: j_def)
  have "toDouble (real_of_int s' / real_of_int 233280) = real_of_int m / 2 ^ (52 + j)"
    unfolding m_def by (rule toDouble_quotient [OF _ nz b]) simp
  then have r: "fst (random s) = real_of_int m / 2 ^ (52 + j)"
    by (simp add: random_fst s'_def rnd_def)
  have "fst (random s) * real_of_int k = real_of_int (m * k) * 2 powr real_of_int (- int (52 + j))"
    unfolding r powr_neg_nat by simp
  then have "toDouble (fst (random s) * real_of_int k) =
      toDouble (real_of_int (m * k)) * 2 powr real_of_int (- int (52 + j))"
    by (simp only: toDouble_scale)
  also have "\<dots> = real_of_int (round53 (m * k)) / real_of_int (2 ^ (52 + j))"
    unfolding toDouble_of_int powr_neg_nat by simp
  finally have "rfloor s k = round53 (m * k) div 2 ^ (52 + j)"
    unfolding rfloor_def by (simp only: floor_divide_of_int_eq)
  then show ?thesis
    using False by (simp add: Let_def s'_def [symmetric] j_def [symmetric] m_def)
qed

lemma collision_code [code]:
  "checkCollisionWithExistingElements x y sz [] = False"
  "checkCollisionWithExistingElements x y sz (e # es) =
     (if 0 < sz + sizeOr10 e + 20 \<and>
         (2 * x + sz - (2 * el_x e + sizeOr10 e))\<^sup>2 +
         (2 * y + sz - (2 * el_y e + sizeOr10 e))\<^sup>2 < (sz + sizeOr10 e + 20)\<^sup>2
      then True else checkCollisionWithExistingElements x y sz es)"
proof -
  show "checkCollisionWithExistingElements x y sz [] = False" by simp
  let ?s = "sizeOr10 e"
  have a: "real_of_int x + real_of_int sz / 2 - (real_of_int (el_x e) + real_of_int ?s / 2)
      = real_of_int (2 * x + sz - (2 * el_x e + ?s)) / 2" by simp
  have b: "real_of_int y + real_of_int sz / 2 - (real_of_int (el_y e) + real_of_int ?s / 2)
      = real_of_int (2 * y + sz - (2 * el_y e + ?s)) / 2" by simp
  have c: "real_of_int sz / 2 + real_of_int ?s / 2 + buffer = real_of_int (sz + ?s + 20) / 2"
    by (simp add: buffer_def)
  show "checkCollisionWithExistingElements x y sz (e # es) =
     (if 0 < sz + sizeOr10 e + 20 \<and>
         (2 * x + sz - (2 * el_x e + sizeOr10 e))\<^sup>2 +
         (2 * y + sz - (2 * el_y e + sizeOr10 e))\<^sup>2 < (sz + sizeOr10 e + 20)\<^sup>2
      then True else checkCollisionWithExistingElements x y sz es)"
    unfolding checkCollisionWithExistingElements.simps Let_def a b c
    by (simp only: sqrt_less_iff [OF sum_power2_ge_zero] half_squares_less) simp
qed

lemma flowerValid_code [code]:
  "flowerPositionValid x y [] = True"
  "flowerPositionValid x y (e # es) =
     (if 0 < sizeOr10 e \<and>
         (2 * x - (2 * el_x e + sizeOr10 e))\<^sup>2 + (2 * y - (2 * el_y e + sizeOr10 e))\<^sup>2
           < (sizeOr10 e)\<^sup>2
      then False else flowerPositionValid x y es)"
proof -
  show "flowerPositionValid x y [] = True" by simp
  let ?s = "sizeOr10 e"
  have a: "real_of_int x - (real_of_int (el_x e) + real_of_int ?s / 2)
      = real_of_int (2 * x - (2 * el_x e + ?s)) / 2" by simp
  have b: "real_of_int y - (real_of_int (el_y e) + real_of_int ?s / 2)
      = real_of_int (2 * y - (2 * el_y e + ?s)) / 2" by simp
  show "flowerPositionValid x y (e # es) =
     (if 0 < sizeOr10 e \<and>
         (2 * x - (2 * el_x e + sizeOr10 e))\<^sup>2 + (2 * y - (2 * el_y e + sizeOr10 e))\<^sup>2
           < (sizeOr10 e)\<^sup>2
      then False else flowerPositionValid x y es)"
    unfolding flowerPositionValid.simps Let_def a b
    by (simp only: sqrt_less_iff [OF sum_power2_ge_zero] half_squares_less) simp
qed

lemma placementLoop_code [code]:
  "placementLoop cs chunkX chunkY sz existing attempts validPosition x y rng =
     (if \<not> validPosition \<and> attempts < 50 then
        (let x' = chunkX * cs + rfloor rng (cs - sz);
             rng1 = rnd rng;
             y' = chunkY * cs + rfloor rng1 (cs - sz)
         in placementLoop cs chunkX chunkY sz existing (attempts + 1)
              (\<not> checkCollisionWithExistingElements x' y' sz existing) x' y' (rnd rng1))
      else (validPosition, x, y, rng))"
  by (subst placementLoop.simps) (simp add: Let_def rfloor_def rnd_def)

lemma treeStep_code [code]:
  "treeStep chunkX chunkY (rng, ts, g) =
     (let sz = 80 + rfloor rng 40;
          rng1 = rnd rng;
          variant = rfloor rng1 3;
          placed = placementLoop (gen_chunkSize g) chunkX chunkY sz (map asElement ts)
                     0 False 0 0 (rnd rng1)
      in case placed of (validPosition, x, y, rng') \<Rightarrow>
           if validPosition then
             (rnd (rnd (rnd rng')),
              ts @ [\<lparr>tree_id = nextTreeId g, tree_x = x, tree_y = y, tree_size = sz,
                     tree_color =
                       Hsl (toDouble (110 + toDouble (fst (random rng') * 30)))
                           (toDouble (70 + toDouble (fst (random (rnd rng')) * 10)))
                           (toDouble (35 + toDouble (fst (random (rnd (rnd rng'))) * 15))),
                     tree_variant = variant\<rparr>],
              g\<lparr>nextTreeId := nextTreeId g + 1\<rparr>)
           else (rng', ts, g))"
  by (simp add: treeStep_def Let_def rfloor_def rnd_def split: prod.splits)

lemma bushStep_code [code]:
  "bushStep chunkX chunkY existingElements (rng, bs, g) =
     (let sz = 40 + rfloor rng 20;
          rng1 = rnd rng;
          variant = rfloor rng1 3;
          placed = placementLoop (gen_chunkSize g) chunkX chunkY sz
                     (existingElements @ map asElement bs) 0 False 0 0 (rnd rng1)
      in case placed of (validPosition, x, y, rng') \<Rightarrow>
           if validPosition then
             (rnd (rnd (rnd rng')),
              bs @ [\<lparr>tree_id = nextBushId g, tree_x = x, tree_y = y, tree_size = sz,
                     tree_color =
                       Hsl (toDouble (100 + toDouble (fst (random rng') * 50)))
                           (toDouble (65 + toDouble (fst (random (rnd rng')) * 15)))
                           (toDouble (30 + toDouble (fst (random (rnd (rnd rng'))) * 15))),
                     tree_variant = variant\<rparr>],
              g\<lparr>nextBushId := nextBushId g + 1\<rparr>)
           else (rng', bs, g))"
  by (simp add: bushStep_def Let_def rfloor_def rnd_def split: prod.splits)

lemma flowerStep_code [code]:
  "flowerStep chunkX chunkY existingElements (rng, fs, g) =
     (let x = chunkX * gen_chunkSize g + rfloor rng (gen_chunkSize g);
          rng1 = rnd rng;
          y = chunkY * gen_chunkSize g + rfloor rng1 (gen_chunkSize g);
          rng2 = rnd rng1;
          color = paletteAt (rfloor rng2 (int (length flowerColors)))
      in if flowerPositionValid x y existingElements then
           (rnd rng2,
            fs @ [\<lparr>flower_id = nextFlowerId g, flower_x = x, flower_y = y,
                   flower_color = color\<rparr>],
            g\<lparr>nextFlowerId := nextFlowerId g + 1\<rparr>)
         else (rnd rng2, fs, g))"
  by (simp add: flowerStep_def Let_def rfloor_def rnd_def)














section \<open>Chunk (-1, 0): a negative seed\<close>

lemma treeStep_prefix: "\<exists>rest. fst (snd (treeStep cx cy st)) = fst (snd st) @ rest"
  by (cases st) (simp add: treeStep_def Let_def split: prod.splits)

lemma treesLoop_prefix: "\<exists>rest. fst (snd (treesLoop cx cy n st)) = fst (snd st) @ rest"
proof (induction n arbitrary: st)
  case 0
  then show ?case by simp
next
  case (Suc n)
  from Suc.IH [of "treeStep cx cy st"] treeStep_prefix [of cx cy st]
  show ?case by auto
qed

text \<open>The first pass of the tree loop of chunk (-1, 0), run by the kernel.\<close>

lemma first_tree_eval:
  "(case treeStep (- 1) 0 (createSeededRandom (- 10000), [], originGenerator) of
      (r, ts, g) \<Rightarrow> map (\<lambda>t. (tree_x t, tree_y t, tree_size t, tree_variant t)) ts) =
     [(- 827, - 225, 60, - 2)]"
  by code_simp

lemma negative_chunk_first_tree:
  "trees (fst (generateChunk originGenerator (- 1) 0)) \<noteq> [] \<and>
   tree_x (hd (trees (fst (generateChunk originGenerator (- 1) 0)))) = - 827 \<and>
   tree_y (hd (trees (fst (generateChunk originGenerator (- 1) 0)))) = - 225 \<and>
   tree_size (hd (trees (fst (generateChunk originGenerator (- 1) 0)))) = 60 \<and>
   tree_variant (hd (trees (fst (generateChunk originGenerator (- 1) 0)))) = - 2"
proof -
  obtain n where n: "treeCount (chunkSeed (- 1) 0) = Suc n"
    using treeCount_pos [of "chunkSeed (- 1) 0"] by (cases "treeCount (chunkSeed (- 1) 0)") simp_all
  let ?st = "treeStep (- 1) 0 (createSeededRandom (- 10000), [], originGenerator)"
  have t: "trees (fst (generateChunk originGenerator (- 1) 0)) = fst (snd (treesLoop (- 1) 0 n ?st))"
    unfolding generateChunk_parts generateTrees_fst n by (simp add: chunkSeed_def)
  from first_tree_eval obtain t0 where t0: "fst (snd ?st) = [t0]"
    and v: "(tree_x t0, tree_y t0, tree_size t0, tree_variant t0) = (- 827, - 225, 60, - 2)"
    by (cases ?st) auto
  from treesLoop_prefix [of "- 1" 0 n ?st] t0 obtain rest where
    "fst (snd (treesLoop (- 1) 0 n ?st)) = t0 # rest" by auto
  with t v show ?thesis by simp
qed

lemma negative_chunk_requested:
  "fst (getChunkAtPosition (newGameWorld ''w'' 1) \<lparr>pos_x = - 1, pos_y = 0\<rparr>) =
     fst (generateChunk originGenerator (- 1) 0)"
proof -
  have k: "getChunkKey (- 1) 0 = chunkKeyOf (- 1) 0"
    by (simp add: getChunkKey_def chunkIndex_minus_one chunkIndex_zero)
  show ?thesis
    by (simp add: getChunkAtPosition_def k getOrGenerateChunk_def parseChunkKey_chunkKeyOf
          newGameWorld_def originGenerator_def split: prod.splits)
qed

text \<open>
  C8. The claim asks for values in the interval from 0 (included) to 1 (excluded) for every
  integer seed. The source gives a negative value for a negative seed, because its
  remainder keeps the sign of the dividend. \<open>getChunkAtPosition\<close> at the position (-1, 0)
  of a new world returns the chunk (-1, 0), whose seed is -10000. The first value of its
  tree stream is negative; the size drawn from it is 60, not one of 80 to 119, the variant
  drawn next is -2, not one of 0, 1, 2, and these are the size and the variant of the first
  tree of the chunk. In its flower stream, of seed -9998, the third value indexes the
  palette for the first flower at -2, which reads no colour.
\<close>

theorem seeded_random_negative_seed:
  "fst (getChunkAtPosition (newGameWorld ''w'' 1) \<lparr>pos_x = - 1, pos_y = 0\<rparr>) =
     fst (generateChunk originGenerator (- 1) 0) \<and>
   chunkSeed (- 1) 0 = - 10000 \<and>
   stateAfter 1 (createSeededRandom (- 10000)) = - 115263 \<and>
   nthRandom (- 10000) 0 = toDouble (- 115263 / 233280) \<and>
   nthRandom (- 10000) 0 = - 8900864263539189 / 2 ^ 54 \<and>
   nthRandom (- 10000) 0 < 0 \<and>
   80 + \<lfloor>toDouble (nthRandom (- 10000) 0 * 40)\<rfloor> = 60 \<and>
   \<lfloor>toDouble (nthRandom (- 10000) 1 * 3)\<rfloor> = - 2 \<and>
   trees (fst (generateChunk originGenerator (- 1) 0)) \<noteq> [] \<and>
   tree_size (hd (trees (fst (generateChunk originGenerator (- 1) 0)))) = 60 \<and>
   tree_variant (hd (trees (fst (generateChunk originGenerator (- 1) 0)))) = - 2 \<and>
   paletteAt \<lfloor>toDouble (nthRandom (chunkSeed (- 1) 0 + 2) 2 * real (length flowerColors))\<rfloor> =
     NoColor"
proof -
  have s1: "rnd (- 10000) = - 115263" by code_simp
  have n0: "nthRandom (- 10000) 0 = fst (random (- 10000))"
    by (simp add: nthRandom_def createSeededRandom_def)
  have n1: "nthRandom (- 10000) 1 = fst (random (rnd (- 10000)))"
    by (simp add: nthRandom_def createSeededRandom_def rnd_def)
  have n2: "nthRandom (- 9998) 2 = fst (random (rnd (rnd (- 9998))))"
    by (simp add: nthRandom_def createSeededRandom_def rnd_def eval_nat_numeral)
  have st: "stateAfter 1 (createSeededRandom (- 10000)) = - 115263"
    using s1 by (simp add: createSeededRandom_def rnd_def)
  have r0: "nthRandom (- 10000) 0 = toDouble (- 115263 / 233280)"
    unfolding n0 random_fst using s1 by (simp add: rnd_def)
  have q: "toDouble (real_of_int (- 115263) / real_of_int 233280) =
      real_of_int (roundEvenDiv (- 115263 * 2 ^ (52 + 2)) 233280) / 2 ^ (52 + 2)"
    by (rule toDouble_quotient) simp_all
  have m: "roundEvenDiv (- 115263 * 2 ^ (52 + 2)) 233280 = - 8900864263539189" by code_simp
  have v: "nthRandom (- 10000) 0 = - 8900864263539189 / 2 ^ 54"
    using q unfolding r0 m by simp
  have e0: "rfloor (- 10000) 40 = - 20" by code_simp
  have e1: "rfloor (rnd (- 10000)) 3 = - 2" by code_simp
  have e2: "rfloor (rnd (rnd (- 9998))) 9 = - 2" by code_simp
  have f0: "\<lfloor>toDouble (nthRandom (- 10000) 0 * 40)\<rfloor> = - 20"
    using e0 unfolding n0 by (simp add: rfloor_def)
  have f1: "\<lfloor>toDouble (nthRandom (- 10000) 1 * 3)\<rfloor> = - 2"
    using e1 unfolding n1 by (simp add: rfloor_def)
  have f2: "\<lfloor>toDouble (nthRandom (- 9998) 2 * 9)\<rfloor> = - 2"
    using e2 unfolding n2 by (simp add: rfloor_def)
  have c: "paletteAt \<lfloor>toDouble (nthRandom (chunkSeed (- 1) 0 + 2) 2 * real (length flowerColors))\<rfloor> =
      NoColor"
    using f2 by (simp add: chunkSeed_def flowerColors_def paletteAt_def)
  have neg: "nthRandom (- 10000) 0 < 0" unfolding v by simp
  from negative_chunk_requested negative_chunk_first_tree st r0 v neg f0 f1 c show ?thesis
    by (simp add: chunkSeed_def)
qed

end
